theory Spec2Isabelle
  imports Complex_Main "HOL-Library.Log_Nat" "HOL-Library.List_Lexorder"
    "HOL-Library.Product_Lexorder"
begin

section \<open>Python values\<close>

text \<open>
  A Python \<open>str\<close> is a sequence of Unicode code points; a code point is a natural number.
  The literals of the scripts are written as code-point lists (the column names are
  Chinese), and ASCII text is lifted with \<open>ascii\<close>.
\<close>

type_synonym pystr = "nat list"

definition ascii :: "string \<Rightarrow> pystr" where
  "ascii s = map of_char s"

text \<open>
  A Python \<open>float\<close> is an IEEE binary64 value: a finite rational, an infinity or NaN
  (the sign of zero is not represented; nothing below looks at it).
\<close>

datatype pyfloat = Fin rat | PInf | NInf | NaN

text \<open>The values \<open>json.load\<close> can put into a record.\<close>

datatype pyval =
    PNone
  | PBool bool
  | PInt int
  | PFloat pyfloat
  | PStr pystr
  | PList "pyval list"
  | PDict "(pystr \<times> pyval) list"

text \<open>The exceptions the scripts can raise.\<close>

datatype pyexc = TypeErr | ValueErr | OverflowErr | ZeroDivisionErr | KeyErr

section \<open>Character classes\<close>

text \<open>
  In a \<open>str\<close> pattern \<open>\d\<close> matches every character of Unicode category Nd, the characters
  \<open>str.isdecimal\<close> accepts, and \<open>float\<close> reads each of them as its decimal digit. The
  category consists of runs of ten consecutive code points, digit zero first;
  \<open>nd_zeros\<close> lists the zero of each run (Unicode 14, ASCII first).
\<close>

definition nd_zeros :: "nat list" where
  "nd_zeros = [48, 1632, 1776, 1984, 2406, 2534, 2662, 2790, 2918, 3046, 3174, 3302,
     3430, 3558, 3664, 3792, 3872, 4160, 4240, 6112, 6160, 6470, 6608, 6784, 6800, 6992,
     7088, 7232, 7248, 42528, 43216, 43264, 43472, 43504, 43600, 44016, 65296, 66720,
     68912, 69734, 69872, 69942, 70096, 70384, 70736, 70864, 71248, 71360, 71472, 71904,
     72016, 72784, 73040, 73120, 92768, 92864, 93008, 120782, 120792, 120802, 120812,
     120822, 123200, 123632, 125264, 130032]"

definition in_run :: "nat \<Rightarrow> nat \<Rightarrow> bool" where
  "in_run c z = (z \<le> c \<and> c < z + 10)"

definition is_digit :: "nat \<Rightarrow> bool" where
  "is_digit c = list_ex (in_run c) nd_zeros"

definition digit_value :: "nat \<Rightarrow> nat" where
  "digit_value c = (case filter (in_run c) nd_zeros of [] \<Rightarrow> 0 | z # _ \<Rightarrow> c - z)"

text \<open>The characters \<open>str.strip()\<close> removes: those for which \<open>str.isspace\<close> holds.\<close>

definition is_space :: "nat \<Rightarrow> bool" where
  "is_space c = (c \<in> set [9, 10, 11, 12, 13, 28, 29, 30, 31, 32, 133, 160, 5760, 8192, 8193,
     8194, 8195, 8196, 8197, 8198, 8199, 8200, 8201, 8202, 8232, 8233, 8239, 8287, 12288])"

definition strip :: "pystr \<Rightarrow> pystr" where
  "strip s = rev (dropWhile is_space (rev (dropWhile is_space s)))"

section \<open>preprocessing.py: numeric tokens\<close>

text \<open>
  \<open>re.findall(r"\d+\.?\d*", text)\<close>. At a digit the pattern takes the longest run of
  digits, then a dot if one follows, then the longest run of digits; every quantifier is
  greedy and what follows it can match the empty string, so the match never backtracks.
  \<open>match_number\<close> is the match at the head of the text and what is left after it.
\<close>

definition dot :: nat where
  "dot = 46"

definition match_number :: "pystr \<Rightarrow> pystr \<times> pystr" where
  "match_number s =
     (let ds = takeWhile is_digit s;
          r1 = dropWhile is_digit s;
          pt = (case r1 of [] \<Rightarrow> [] | x # _ \<Rightarrow> if x = dot then [x] else []);
          r2 = drop (length pt) r1;
          fs = takeWhile is_digit r2;
          r3 = dropWhile is_digit r2
      in (ds @ pt @ fs, r3))"

lemma match_number_shorter:
  "is_digit c \<Longrightarrow> length (snd (match_number (c # cs))) < Suc (length cs)"
proof -
  assume d: "is_digit c"
  let ?r1 = "dropWhile is_digit cs"
  let ?pt = "(case ?r1 of [] \<Rightarrow> [] | x # _ \<Rightarrow> if x = dot then [x] else [])"
  have a: "length ?r1 \<le> length cs"
    by (rule length_dropWhile_le)
  have b: "length (dropWhile is_digit (drop (length ?pt) ?r1)) \<le> length (drop (length ?pt) ?r1)"
    by (rule length_dropWhile_le)
  have c: "length (drop (length ?pt) ?r1) \<le> length ?r1"
    by simp
  have "snd (match_number (c # cs)) = dropWhile is_digit (drop (length ?pt) ?r1)"
    using d by (simp add: match_number_def Let_def)
  with a b c show ?thesis by simp
qed

function findall_number :: "pystr \<Rightarrow> pystr list" where
  "findall_number [] = []"
| "findall_number (c # cs) =
     (if is_digit c
      then fst (match_number (c # cs)) # findall_number (snd (match_number (c # cs)))
      else findall_number cs)"
  by pat_completeness auto
termination
  by (relation "measure length") (auto simp: match_number_shorter)

text \<open>
  \<open>extract_number(text)\<close>: \<open>re.findall\<close> raises \<open>TypeError\<close> ("expected string or
  bytes-like object") for an argument that is not a string.
\<close>

definition extract_number :: "pyval \<Rightarrow> pyexc + pystr list" where
  "extract_number text =
     (case text of PStr s \<Rightarrow> Inr (findall_number s) | _ \<Rightarrow> Inl TypeErr)"

section \<open>Binary64 arithmetic\<close>

text \<open>
  \<open>fl q\<close> is the binary64 value nearest to the rational \<open>q\<close>, ties to the even
  significand: 53 significant bits down to the smallest normal exponent \<open>-1022\<close>, the
  fixed spacing \<open>2^-1074\<close> below it, and an infinity once the rounded value reaches
  \<open>2^1024\<close>. Conversion from a decimal string and every arithmetic operation round
  their exact result this way.
\<close>

definition pow2 :: "int \<Rightarrow> rat" where
  "pow2 e = (if 0 \<le> e then 2 ^ nat e else 1 / 2 ^ nat (- e))"

definition ilog2 :: "rat \<Rightarrow> int" where
  \<comment> \<open>\<open>\<lfloor>log\<^sub>2 q\<rfloor>\<close> for \<open>0 < q\<close>\<close>
  "ilog2 q =
     (if 1 \<le> q then bitlen \<lfloor>q\<rfloor> - 1 else - bitlen (\<lceil>1 / q\<rceil> - 1))"

definition round_half_even :: "rat \<Rightarrow> int" where
  "round_half_even q =
     (let f = \<lfloor>q\<rfloor>; d = q - of_int f
      in if d < 1 / 2 then f else if 1 / 2 < d then f + 1
         else if even f then f else f + 1)"

definition fl_pos :: "rat \<Rightarrow> pyfloat" where
  "fl_pos q =
     (if q = 0 then Fin 0
      else let p = max (ilog2 q) (- 1022) - 52;
               r = of_int (round_half_even (q / pow2 p)) * pow2 p
           in if pow2 1024 \<le> r then PInf else Fin r)"

definition fneg :: "pyfloat \<Rightarrow> pyfloat" where
  "fneg x = (case x of Fin q \<Rightarrow> Fin (- q) | PInf \<Rightarrow> NInf | NInf \<Rightarrow> PInf | NaN \<Rightarrow> NaN)"

definition fl :: "rat \<Rightarrow> pyfloat" where
  "fl q = (if q < 0 then fneg (fl_pos (- q)) else fl_pos q)"

fun fadd :: "pyfloat \<Rightarrow> pyfloat \<Rightarrow> pyfloat" where
  "fadd NaN _ = NaN"
| "fadd _ NaN = NaN"
| "fadd PInf NInf = NaN"
| "fadd NInf PInf = NaN"
| "fadd PInf _ = PInf"
| "fadd _ PInf = PInf"
| "fadd NInf _ = NInf"
| "fadd _ NInf = NInf"
| "fadd (Fin a) (Fin b) = fl (a + b)"

definition fsub :: "pyfloat \<Rightarrow> pyfloat \<Rightarrow> pyfloat" where
  "fsub x y = fadd x (fneg y)"

text \<open>
  IEEE division, as numpy performs it: a zero divisor gives an infinity or NaN, no error.
  A zero divisor is taken as \<open>+0.0\<close>.
\<close>

fun fdiv :: "pyfloat \<Rightarrow> pyfloat \<Rightarrow> pyfloat" where
  "fdiv NaN _ = NaN"
| "fdiv _ NaN = NaN"
| "fdiv PInf (Fin b) = (if 0 \<le> b then PInf else NInf)"
| "fdiv NInf (Fin b) = (if 0 \<le> b then NInf else PInf)"
| "fdiv PInf _ = NaN"
| "fdiv NInf _ = NaN"
| "fdiv (Fin a) (Fin b) =
     (if b = 0 then (if a = 0 then NaN else if 0 < a then PInf else NInf)
      else fl (a / b))"
| "fdiv (Fin a) _ = Fin 0"

text \<open>
  Python's own operations on a float: \<open>x / n\<close> for an \<open>int\<close> \<open>n\<close> converts \<open>n\<close>
  (\<open>OverflowError\<close> when it is too large) and raises \<open>ZeroDivisionError\<close> for zero;
  \<open>round(x)\<close> rounds half to even and \<open>int(x)\<close> truncates toward zero, both to an
  unbounded \<open>int\<close>, and both raise \<open>OverflowError\<close> for an infinity and \<open>ValueError\<close> for
  NaN.
\<close>

definition truediv_int :: "pyfloat \<Rightarrow> int \<Rightarrow> pyexc + pyfloat" where
  "truediv_int x n =
     (if n = 0 then Inl ZeroDivisionErr
      else case fl (of_int n) of Fin d \<Rightarrow> Inr (fdiv x (Fin d)) | _ \<Rightarrow> Inl OverflowErr)"

definition py_round :: "pyfloat \<Rightarrow> pyexc + int" where
  "py_round x =
     (case x of Fin q \<Rightarrow> Inr (round_half_even q) | NaN \<Rightarrow> Inl ValueErr | _ \<Rightarrow> Inl OverflowErr)"

definition trunc :: "rat \<Rightarrow> int" where
  "trunc q = (if 0 \<le> q then \<lfloor>q\<rfloor> else \<lceil>q\<rceil>)"

definition py_int :: "pyfloat \<Rightarrow> pyexc + int" where
  "py_int x =
     (case x of Fin q \<Rightarrow> Inr (trunc q) | NaN \<Rightarrow> Inl ValueErr | _ \<Rightarrow> Inl OverflowErr)"

text \<open>
  \<open>float(s)\<close> on a decimal literal: digits, then optionally a dot and further digits
  (possibly none). The digits may come from any script. This is the only form the
  tokens of \<open>extract_number\<close> take; the further forms \<open>float\<close> reads (signs, exponents,
  \<open>inf\<close>, \<open>nan\<close>, underscores, surrounding blanks) are not modelled, and a string that
  is not a decimal literal is answered with \<open>ValueError\<close>.
\<close>

definition is_literal :: "pystr \<Rightarrow> bool" where
  "is_literal t =
     (let ip = takeWhile is_digit t; r = dropWhile is_digit t
      in ip \<noteq> [] \<and> (case r of [] \<Rightarrow> True | x # fp \<Rightarrow> x = dot \<and> list_all is_digit fp))"

definition digits_value :: "pystr \<Rightarrow> int" where
  "digits_value ds = foldl (\<lambda>acc c. 10 * acc + int (digit_value c)) 0 ds"

definition literal_value :: "pystr \<Rightarrow> rat" where
  "literal_value t =
     (let ip = takeWhile is_digit t; fp = drop (Suc (length ip)) t
      in of_int (digits_value ip) + of_int (digits_value fp) / 10 ^ length fp)"

definition py_float :: "pystr \<Rightarrow> pyexc + pyfloat" where
  "py_float t = (if is_literal t then Inr (fl (literal_value t)) else Inl ValueErr)"

section \<open>preprocessing.py: one record\<close>

text \<open>
  A raw record is a \<open>dict\<close> from \<open>json.load\<close>; \<open>record.get(key, default)\<close> is a lookup
  in the map. The processed row is the \<open>dict\<close> the function fills key by key. Its keys
  are the nine CSV field names (code points of the Chinese literals in the source).
\<close>

type_synonym pydict = "pystr \<rightharpoonup> pyval"

definition col_name :: pystr where
  "col_name = [27004, 30424, 21517, 31216]"

definition col_type :: pystr where
  "col_type = [31867, 22411]"

definition col_district :: pystr where
  "col_district = [34892, 25919, 21306]"

definition col_street :: pystr where
  "col_street = [34903, 36947]"

definition col_detail :: pystr where
  "col_detail = [20855, 20307, 20301, 32622]"

definition col_room :: pystr where
  "col_room = [25151, 22411]"

definition col_area :: pystr where
  "col_area = [38754, 31215]"

definition col_total_price :: pystr where
  "col_total_price = [24635, 20215]"

definition col_unit_price :: pystr where
  "col_unit_price = [22343, 20215]"

definition fieldnames :: "pystr list" where
  "fieldnames = [col_name, col_type, col_district, col_street, col_detail, col_room,
     col_area, col_total_price, col_unit_price]"

definition safe_get_str :: "pydict \<Rightarrow> pystr \<Rightarrow> pystr" where
  "safe_get_str record key = (case record key of Some (PStr s) \<Rightarrow> strip s | _ \<Rightarrow> [])"

text \<open>\<open>record.get(key, [])\<close>, replaced by \<open>[]\<close> when it is not a list.\<close>

definition get_list :: "pydict \<Rightarrow> pystr \<Rightarrow> pyval list" where
  "get_list record key = (case record key of Some (PList xs) \<Rightarrow> xs | _ \<Rightarrow> [])"

text \<open>The body of the loop over \<open>location_fields\<close>, at index \<open>i\<close>.\<close>

definition location_field :: "pyval list \<Rightarrow> nat \<Rightarrow> pyval" where
  "location_field locations i =
     (if i < length locations
      then (case locations ! i of PStr s \<Rightarrow> PStr (strip s) | _ \<Rightarrow> PStr [])
      else PStr [])"

definition ebind :: "pyexc + 'a \<Rightarrow> ('a \<Rightarrow> pyexc + 'b) \<Rightarrow> pyexc + 'b" where
  "ebind m f = (case m of Inl e \<Rightarrow> Inl e | Inr x \<Rightarrow> f x)"

text \<open>\<open>[float(num) for num in nums]\<close>: the first conversion that raises ends it.\<close>

fun floats :: "pystr list \<Rightarrow> pyexc + pyfloat list" where
  "floats [] = Inr []"
| "floats (num # nums) =
     ebind (py_float num) (\<lambda>x. ebind (floats nums) (\<lambda>xs. Inr (x # xs)))"

text \<open>The loop over \<open>rooms\<close>, with \<open>room_numbers\<close> as accumulator.\<close>

fun collect_rooms :: "pyval list \<Rightarrow> pyfloat list \<Rightarrow> pyexc + pyfloat list" where
  "collect_rooms [] room_numbers = Inr room_numbers"
| "collect_rooms (room # rooms) room_numbers =
     (case room of
        PStr s \<Rightarrow>
          ebind (extract_number room) (\<lambda>nums.
            if nums \<noteq> []
            then ebind (floats nums) (\<lambda>xs. collect_rooms rooms (room_numbers @ xs))
            else collect_rooms rooms room_numbers)
      | _ \<Rightarrow> collect_rooms rooms room_numbers)"

text \<open>
  \<open>sum(xs)\<close> adds from the left, starting at the integer 0 (and \<open>0 + x\<close> is \<open>x\<close>).
  From version 3.12 on CPython also carries the rounding errors of the additions along,
  which can change the last bit of a sum of three or more floats; whether the sum is
  finite, and its sign, are the same.
\<close>

definition py_sum :: "pyfloat list \<Rightarrow> pyfloat" where
  "py_sum xs = (case xs of [] \<Rightarrow> Fin 0 | x # rest \<Rightarrow> foldl fadd x rest)"

definition room_field :: "pyval list \<Rightarrow> pyexc + pyval" where
  "room_field rooms =
     ebind (collect_rooms rooms []) (\<lambda>room_numbers.
       if room_numbers \<noteq> []
       then ebind (truediv_int (py_sum room_numbers) (int (length room_numbers))) (\<lambda>avg_room.
            ebind (py_round avg_room) (\<lambda>n. Inr (PInt n)))
       else Inr (PStr []))"

definition area_field :: "pystr \<Rightarrow> pyexc + pyval" where
  "area_field area_text =
     ebind (extract_number (PStr area_text)) (\<lambda>area_numbers.
       if 2 \<le> length area_numbers
       then ebind (py_float (area_numbers ! 0)) (\<lambda>lower.
            ebind (py_float (area_numbers ! 1)) (\<lambda>upper.
            ebind (truediv_int (fadd lower upper) 2) (\<lambda>avg_area.
            ebind (py_round avg_area) (\<lambda>n. Inr (PInt n)))))
       else if length area_numbers = 1
       then ebind (py_float (area_numbers ! 0)) (\<lambda>x.
            ebind (py_round x) (\<lambda>n. Inr (PInt n)))
       else Inr (PStr []))"

text \<open>
  The total price and the unit price are computed by two copies of the same four lines;
  \<open>price_field\<close> is that block, applied to each text.
\<close>

definition price_field :: "pystr \<Rightarrow> pyexc + pyval" where
  "price_field price_text =
     ebind (extract_number (PStr price_text)) (\<lambda>price_nums.
       if price_nums \<noteq> []
       then ebind (py_float (price_nums ! 0)) (\<lambda>x.
            ebind (py_int x) (\<lambda>n. Inr (PInt n)))
       else Inr (PStr []))"

definition process_record :: "pydict \<Rightarrow> pyexc + pydict" where
  "process_record record =
     (let processed = Map.empty;
          processed = processed(col_name \<mapsto> PStr (safe_get_str record (ascii ''name'')));
          processed = processed(col_type \<mapsto> PStr (safe_get_str record (ascii ''type'')));
          locations = get_list record (ascii ''location'');
          processed = processed(col_district \<mapsto> location_field locations 0);
          processed = processed(col_street \<mapsto> location_field locations 1);
          processed = processed(col_detail \<mapsto> location_field locations 2)
      in ebind (room_field (get_list record (ascii ''room''))) (\<lambda>room.
         ebind (area_field (safe_get_str record (ascii ''area''))) (\<lambda>area.
         ebind (price_field (safe_get_str record (ascii ''total_price''))) (\<lambda>total_price.
         ebind (price_field (safe_get_str record (ascii ''unit_price''))) (\<lambda>unit_price.
           Inr (processed(col_room \<mapsto> room, col_area \<mapsto> area,
                  col_total_price \<mapsto> total_price, col_unit_price \<mapsto> unit_price)))))))"

text \<open>A float that is a non-negative number or \<open>+inf\<close>; one that is no negative number.\<close>

definition fnonneg :: "pyfloat \<Rightarrow> bool" where
  "fnonneg x = (case x of Fin q \<Rightarrow> 0 \<le> q | PInf \<Rightarrow> True | _ \<Rightarrow> False)"

definition not_negative :: "pyfloat \<Rightarrow> bool" where
  "not_negative x = (case x of Fin q \<Rightarrow> 0 \<le> q | NInf \<Rightarrow> False | _ \<Rightarrow> True)"

text \<open>\<open>isinstance(value, str)\<close>.\<close>

definition is_str :: "pyval \<Rightarrow> bool" where
  "is_str v = (case v of PStr _ \<Rightarrow> True | _ \<Rightarrow> False)"

text \<open>\<open>(lower + upper) / 2\<close> on floats.\<close>

definition midpoint :: "pyfloat \<Rightarrow> pyfloat \<Rightarrow> pyfloat" where
  "midpoint lower upper = fdiv (fadd lower upper) (Fin 2)"

section \<open>The tables of the chart scripts\<close>

text \<open>
  A pandas \<open>DataFrame\<close> as the scripts use it: the column names and the rows, each row
  giving the cell of every column. A cell is a float, a 64-bit integer (the cells of an
  \<open>int64\<close> column, such as a count) or a string; the missing value is the float NaN
  (what \<open>read_csv\<close> stores for an empty field, and what \<open>isna\<close> tests).
\<close>

datatype cell = CNum pyfloat | CInt int | CStr pystr

type_synonym row = "pystr \<Rightarrow> cell"

record frame =
  columns :: "pystr list"
  rows :: "row list"

definition isna :: "cell \<Rightarrow> bool" where
  "isna c = (c = CNum NaN)"

text \<open>
  \<open>pd.to_numeric(column, errors="coerce")\<close> on one cell: a number stays, a string is
  parsed, NaN when it is no number. The parser is pandas' own and is a parameter here.
\<close>

definition to_numeric :: "(pystr \<Rightarrow> pyfloat) \<Rightarrow> cell \<Rightarrow> cell" where
  "to_numeric parse c =
     (case c of CNum x \<Rightarrow> CNum x | CInt n \<Rightarrow> CInt n | CStr s \<Rightarrow> CNum (parse s))"

text \<open>\<open>str(n)\<close> of an integer: its decimal digits, after a minus sign when negative.\<close>

fun decimal :: "nat \<Rightarrow> pystr" where
  "decimal n = (if n < 10 then [48 + n] else decimal (n div 10) @ [48 + n mod 10])"

declare decimal.simps [simp del]

definition str_int :: "int \<Rightarrow> pystr" where
  "str_int n = (if n < 0 then 45 # decimal (nat (- n)) else decimal (nat n))"

text \<open>
  The repository pins no version of pandas (there is no requirements file), and
  \<open>column.astype(str)\<close> differs between the major versions on the missing value: pandas 2
  applies \<open>str\<close> to every value, so NaN becomes the three letters \<open>nan\<close>; pandas 3
  converts to its string dtype, in which a missing value stays missing. The version is a
  parameter of everything that calls \<open>astype(str)\<close>. The printing of the other floats is
  a parameter too.
\<close>

datatype pandas = Pandas2 | Pandas3

definition astype_str :: "pandas \<Rightarrow> (pyfloat \<Rightarrow> pystr) \<Rightarrow> cell \<Rightarrow> cell" where
  "astype_str version repr c =
     (case c of CStr s \<Rightarrow> CStr s
      | CInt n \<Rightarrow> CStr (str_int n)
      | CNum x \<Rightarrow>
          if x = NaN then (case version of Pandas2 \<Rightarrow> CStr (ascii ''nan'') | Pandas3 \<Rightarrow> CNum NaN)
          else CStr (repr x))"

text \<open>\<open>data[col] = f(data[col])\<close>, cell by cell.\<close>

definition set_column :: "pystr \<Rightarrow> (cell \<Rightarrow> cell) \<Rightarrow> frame \<Rightarrow> frame" where
  "set_column col f data = data\<lparr>rows := map (\<lambda>r. r(col := f (r col))) (rows data)\<rparr>"

text \<open>\<open>data.dropna(subset=cols)\<close>: the rows that have no missing cell in \<open>cols\<close>.\<close>

definition dropna :: "pystr list \<Rightarrow> frame \<Rightarrow> frame" where
  "dropna cols data =
     data\<lparr>rows := filter (\<lambda>r. list_all (\<lambda>col. \<not> isna (r col)) cols) (rows data)\<rparr>"

text \<open>
  What \<open>pd.read_csv\<close> did: one of the three exceptions \<open>load_data\<close> catches, or a table.
  What \<open>load_data\<close> reports when it returns \<open>None\<close>.
\<close>

datatype csv = NoFile | EmptyFile | Malformed | Parsed frame

datatype diagnostic = FileNotFound | EmptyData | ParserError | MissingColumn pystr

text \<open>
  The loop \<open>for col in required_columns: if col not in data.columns: ... return None\<close>:
  the first required column that the table lacks.
\<close>

fun check_columns :: "pystr list \<Rightarrow> pystr list \<Rightarrow> pystr option" where
  "check_columns [] cols = None"
| "check_columns (col # required_columns) cols =
     (if col \<notin> set cols then Some col else check_columns required_columns cols)"

text \<open>
  The three \<open>load_data\<close> functions are one text with different lists: the required
  columns, the columns made numeric, the columns made strings (in this order), and the
  \<open>dropna\<close> subset, which repeats the required columns.
\<close>

definition clean ::
  "pandas \<Rightarrow> (pystr \<Rightarrow> pyfloat) \<Rightarrow> (pyfloat \<Rightarrow> pystr) \<Rightarrow> pystr list \<Rightarrow> pystr list \<Rightarrow>
    pystr list \<Rightarrow> frame \<Rightarrow> frame" where
  "clean version parse repr numeric strings cols data =
     dropna cols
       (fold (\<lambda>col. set_column col (astype_str version repr)) strings
         (fold (\<lambda>col. set_column col (to_numeric parse)) numeric data))"

definition load ::
  "pandas \<Rightarrow> (pystr \<Rightarrow> pyfloat) \<Rightarrow> (pyfloat \<Rightarrow> pystr) \<Rightarrow> pystr list \<Rightarrow> pystr list \<Rightarrow>
    pystr list \<Rightarrow> csv \<Rightarrow> diagnostic + frame" where
  "load version parse repr required_columns numeric strings file =
     (case file of
        NoFile \<Rightarrow> Inl FileNotFound
      | EmptyFile \<Rightarrow> Inl EmptyData
      | Malformed \<Rightarrow> Inl ParserError
      | Parsed data \<Rightarrow>
          (case check_columns required_columns (columns data) of
             Some col \<Rightarrow> Inl (MissingColumn col)
           | None \<Rightarrow> Inr (clean version parse repr numeric strings required_columns data)))"

text \<open>\<open>load_data\<close> of \<open>average_price_per_district.py\<close>.\<close>

definition load_data_district ::
  "pandas \<Rightarrow> (pystr \<Rightarrow> pyfloat) \<Rightarrow> (pyfloat \<Rightarrow> pystr) \<Rightarrow> csv \<Rightarrow> diagnostic + frame" where
  "load_data_district version parse repr =
     load version parse repr [col_unit_price, col_total_price, col_district]
       [col_unit_price, col_total_price] [col_district]"

text \<open>\<open>load_data\<close> of \<open>heatmap_average_price_per_district_type.py\<close>.\<close>

definition load_data_heatmap ::
  "pandas \<Rightarrow> (pystr \<Rightarrow> pyfloat) \<Rightarrow> (pyfloat \<Rightarrow> pystr) \<Rightarrow> csv \<Rightarrow> diagnostic + frame" where
  "load_data_heatmap version parse repr =
     load version parse repr [col_unit_price, col_total_price, col_district, col_type]
       [col_unit_price, col_total_price] [col_district, col_type]"

text \<open>\<open>load_data\<close> of \<open>radar_chart.py\<close>.\<close>

definition load_data_radar ::
  "pandas \<Rightarrow> (pystr \<Rightarrow> pyfloat) \<Rightarrow> (pyfloat \<Rightarrow> pystr) \<Rightarrow> csv \<Rightarrow> diagnostic + frame" where
  "load_data_radar version parse repr =
     load version parse repr
       [col_name, col_type, col_district, col_room, col_area, col_unit_price, col_total_price]
       [col_room, col_unit_price, col_total_price] [col_type, col_district]"

section \<open>radar_chart.py: range scaling\<close>

text \<open>Comparison of floats; it is false as soon as one side is NaN.\<close>

fun fle :: "pyfloat \<Rightarrow> pyfloat \<Rightarrow> bool" where
  "fle NaN _ = False"
| "fle _ NaN = False"
| "fle NInf _ = True"
| "fle _ PInf = True"
| "fle (Fin a) (Fin b) = (a \<le> b)"
| "fle _ _ = False"

definition fmin :: "pyfloat \<Rightarrow> pyfloat \<Rightarrow> pyfloat" where
  "fmin x y = (if fle x y then x else y)"

definition fmax :: "pyfloat \<Rightarrow> pyfloat \<Rightarrow> pyfloat" where
  "fmax x y = (if fle x y then y else x)"

text \<open>
  \<open>Series.min()\<close> and \<open>Series.max()\<close> skip the missing values and give NaN when nothing
  is left.
\<close>

definition present :: "pyfloat list \<Rightarrow> pyfloat list" where
  "present xs = filter (\<lambda>x. x \<noteq> NaN) xs"

definition col_min :: "pyfloat list \<Rightarrow> pyfloat" where
  "col_min xs = (case present xs of [] \<Rightarrow> NaN | y # ys \<Rightarrow> foldl fmin y ys)"

definition col_max :: "pyfloat list \<Rightarrow> pyfloat" where
  "col_max xs = (case present xs of [] \<Rightarrow> NaN | y # ys \<Rightarrow> foldl fmax y ys)"

text \<open>
  The numbers of a column as floats (an integer is converted); arithmetic on a column
  that holds a string raises \<open>TypeError\<close>.
\<close>

fun numbers :: "cell list \<Rightarrow> pyexc + pyfloat list" where
  "numbers [] = Inr []"
| "numbers (CNum x # cs) = ebind (numbers cs) (\<lambda>xs. Inr (x # xs))"
| "numbers (CInt n # cs) = ebind (numbers cs) (\<lambda>xs. Inr (fl (of_int n) # xs))"
| "numbers (CStr s # cs) = Inl TypeErr"

text \<open>
  A column is \<open>int64\<close> when every cell is an integer (and there is one); its arithmetic
  is that of numpy on 64-bit integers, which wraps around without an error.
\<close>

fun integers :: "cell list \<Rightarrow> int list option" where
  "integers [] = Some []"
| "integers (CInt n # cs) = map_option ((#) n) (integers cs)"
| "integers (CNum x # cs) = None"
| "integers (CStr s # cs) = None"

definition wrap64 :: "int \<Rightarrow> int" where
  "wrap64 n = (n + 2 ^ 63) mod 2 ^ 64 - 2 ^ 63"

definition int_min :: "int list \<Rightarrow> int" where
  "int_min ns = (case ns of [] \<Rightarrow> 0 | n # rest \<Rightarrow> foldl min n rest)"

definition int_max :: "int list \<Rightarrow> int" where
  "int_max ns = (case ns of [] \<Rightarrow> 0 | n # rest \<Rightarrow> foldl max n rest)"

text \<open>
  The body of the loop of \<open>normalize_data\<close> on one column: \<open>min_val\<close>, \<open>max_val\<close>, the
  test \<open>max_val - min_val == 0\<close>, and the new column. The new column \<open>0\<close> is the integer
  zero in every row. On a float column the subtractions are float subtractions; on an
  \<open>int64\<close> column they are 64-bit subtractions, and the division converts both sides to
  floats.
\<close>

definition normalize_floats :: "pyfloat list \<Rightarrow> cell list" where
  "normalize_floats xs =
     (let min_val = col_min xs; max_val = col_max xs
      in if fsub max_val min_val = Fin 0 then map (\<lambda>v. CInt 0) xs
         else map (\<lambda>v. CNum (fdiv (fsub v min_val) (fsub max_val min_val))) xs)"

definition normalize_ints :: "int list \<Rightarrow> cell list" where
  "normalize_ints ns =
     (let min_val = int_min ns; max_val = int_max ns
      in if wrap64 (max_val - min_val) = 0 then map (\<lambda>v. CInt 0) ns
         else map (\<lambda>v. CNum (fdiv (fl (of_int (wrap64 (v - min_val))))
                                   (fl (of_int (wrap64 (max_val - min_val)))))) ns)"

definition normalize_column :: "cell list \<Rightarrow> pyexc + cell list" where
  "normalize_column cells =
     (case integers cells of
        Some (n # ns) \<Rightarrow> Inr (normalize_ints (n # ns))
      | _ \<Rightarrow> ebind (numbers cells) (\<lambda>xs. Inr (normalize_floats xs)))"

definition column :: "frame \<Rightarrow> pystr \<Rightarrow> cell list" where
  "column data col = map (\<lambda>r. r col) (rows data)"

definition put_column :: "pystr \<Rightarrow> cell list \<Rightarrow> frame \<Rightarrow> frame" where
  "put_column col cells data =
     data\<lparr>rows := map (\<lambda>(r, c). r(col := c)) (zip (rows data) cells)\<rparr>"

text \<open>
  \<open>normalize_data(df, metrics)\<close>: the loop reads \<open>df\<close> and writes \<open>df_norm\<close>, which starts
  as a copy of \<open>df\<close>; \<open>df[metric]\<close> raises \<open>KeyError\<close> for a name that is no column.
\<close>

fun normalize_loop :: "frame \<Rightarrow> pystr list \<Rightarrow> frame \<Rightarrow> pyexc + frame" where
  "normalize_loop df [] df_norm = Inr df_norm"
| "normalize_loop df (metric # metrics) df_norm =
     (if metric \<notin> set (columns df) then Inl KeyErr
      else ebind (normalize_column (column df metric)) (\<lambda>cells.
        normalize_loop df metrics (put_column metric cells df_norm)))"

definition normalize_data :: "frame \<Rightarrow> pystr list \<Rightarrow> pyexc + frame" where
  "normalize_data df metrics = normalize_loop df metrics df"

section \<open>Grouping\<close>

text \<open>
  The key columns have been through \<open>astype(str)\<close>, so a key is a string. \<open>groupby\<close>
  leaves out the rows whose key is missing and sorts the groups by key; strings compare
  by code point.
\<close>

definition key_of :: "cell \<Rightarrow> pystr option" where
  "key_of c = (case c of CStr s \<Rightarrow> Some s | _ \<Rightarrow> None)"

text \<open>
  The aggregations \<open>"mean"\<close> and \<open>"count"\<close> of one group's cells: both skip the missing
  values; the mean of nothing is NaN. pandas' \<open>group_mean\<close> adds the values of a group
  with Kahan's compensated summation: it carries the running sum \<open>sumx\<close> and the
  rounding error \<open>compensation\<close> of the last addition (reset to zero when it is NaN),
  and divides the sum by the number of values at the end.
\<close>

fun kahan :: "pyfloat \<Rightarrow> pyfloat \<Rightarrow> pyfloat list \<Rightarrow> pyfloat" where
  "kahan sumx compensation [] = sumx"
| "kahan sumx compensation (val # vals) =
     (let y = fsub val compensation;
          t = fadd sumx y;
          c = fsub (fsub t sumx) y
      in kahan t (if c = NaN then Fin 0 else c) vals)"

definition pd_mean :: "cell list \<Rightarrow> pyexc + pyfloat" where
  "pd_mean cells =
     ebind (numbers cells) (\<lambda>xs.
       if present xs = [] then Inr NaN
       else Inr (fdiv (kahan (Fin 0) (Fin 0) (present xs)) (fl (of_nat (length (present xs))))))"

definition pd_count :: "cell list \<Rightarrow> nat" where
  "pd_count cells = length (filter (\<lambda>c. \<not> isna c) cells)"

subsection \<open>average_price_per_district.py\<close>

text \<open>
  One row of \<open>grouped\<close>: the district, the mean unit price, the mean total price and the
  count of the name column (the four columns of the aggregation).
\<close>

record summary =
  district :: pystr
  mean_unit_price :: pyfloat
  mean_total_price :: pyfloat
  listings :: nat

definition group_keys :: "frame \<Rightarrow> pystr \<Rightarrow> pystr list" where
  "group_keys data col = sort (remdups (List.map_filter (\<lambda>r. key_of (r col)) (rows data)))"

definition group_rows :: "frame \<Rightarrow> pystr \<Rightarrow> pystr \<Rightarrow> row list" where
  "group_rows data col k = filter (\<lambda>r. key_of (r col) = Some k) (rows data)"

definition summarize :: "frame \<Rightarrow> pystr \<Rightarrow> pyexc + summary" where
  "summarize data k =
     (let g = group_rows data col_district k
      in ebind (pd_mean (map (\<lambda>r. r col_unit_price) g)) (\<lambda>mu.
         ebind (pd_mean (map (\<lambda>r. r col_total_price) g)) (\<lambda>mt.
           Inr \<lparr>district = k, mean_unit_price = mu, mean_total_price = mt,
                listings = pd_count (map (\<lambda>r. r col_name) g)\<rparr>)))"

fun summaries :: "frame \<Rightarrow> pystr list \<Rightarrow> pyexc + summary list" where
  "summaries data [] = Inr []"
| "summaries data (k # ks) =
     ebind (summarize data k) (\<lambda>s. ebind (summaries data ks) (\<lambda>ss. Inr (s # ss)))"

text \<open>
  \<open>sort_values(by=mean unit price, ascending=False)\<close>: descending, NaN last. pandas does
  not fix the order of rows with equal means; here they keep their order.
\<close>

definition before :: "summary \<Rightarrow> summary \<Rightarrow> bool" where
  "before x y =
     (mean_unit_price y = NaN \<or>
      (mean_unit_price x \<noteq> NaN \<and> fle (mean_unit_price y) (mean_unit_price x)))"

fun insert_desc :: "summary \<Rightarrow> summary list \<Rightarrow> summary list" where
  "insert_desc x [] = [x]"
| "insert_desc x (y # ys) = (if before x y then x # y # ys else y # insert_desc x ys)"

definition sort_values :: "summary list \<Rightarrow> summary list" where
  "sort_values grouped = foldr insert_desc grouped []"

definition prepare_plot_data :: "frame \<Rightarrow> pyexc + summary list" where
  "prepare_plot_data data =
     (if list_all (\<lambda>col. col \<in> set (columns data))
           [col_district, col_unit_price, col_total_price, col_name]
      then ebind (summaries data (group_keys data col_district)) (\<lambda>grouped.
             Inr (sort_values grouped))
      else Inl KeyErr)"

subsection \<open>heatmap_average_price_per_district_type.py\<close>

text \<open>One row of \<open>grouped\<close>: the two keys and the two means.\<close>

record pair_summary =
  pair_district :: pystr
  pair_type :: pystr
  pair_mean_unit_price :: pyfloat
  pair_mean_total_price :: pyfloat

definition pair_key :: "row \<Rightarrow> (pystr \<times> pystr) option" where
  "pair_key r =
     (case key_of (r col_district) of None \<Rightarrow> None
      | Some d \<Rightarrow> (case key_of (r col_type) of None \<Rightarrow> None | Some t \<Rightarrow> Some (d, t)))"

definition pair_keys :: "frame \<Rightarrow> (pystr \<times> pystr) list" where
  "pair_keys data = sort (remdups (List.map_filter pair_key (rows data)))"

definition pair_rows :: "frame \<Rightarrow> pystr \<times> pystr \<Rightarrow> row list" where
  "pair_rows data k = filter (\<lambda>r. pair_key r = Some k) (rows data)"

definition pair_summarize :: "frame \<Rightarrow> pystr \<times> pystr \<Rightarrow> pyexc + pair_summary" where
  "pair_summarize data k =
     (let g = pair_rows data k
      in ebind (pd_mean (map (\<lambda>r. r col_unit_price) g)) (\<lambda>mu.
         ebind (pd_mean (map (\<lambda>r. r col_total_price) g)) (\<lambda>mt.
           Inr \<lparr>pair_district = fst k, pair_type = snd k, pair_mean_unit_price = mu,
                pair_mean_total_price = mt\<rparr>)))"

fun pair_summaries :: "frame \<Rightarrow> (pystr \<times> pystr) list \<Rightarrow> pyexc + pair_summary list" where
  "pair_summaries data [] = Inr []"
| "pair_summaries data (k # ks) =
     ebind (pair_summarize data k) (\<lambda>s. ebind (pair_summaries data ks) (\<lambda>ss. Inr (s # ss)))"

text \<open>
  \<open>grouped.pivot(index=, columns=, values=)\<close>: the sorted distinct values of the first
  key label the rows, those of the second the columns, and a cell holds the value of the
  one row of \<open>grouped\<close> with these two keys, NaN when there is none. Two rows with the
  same keys make \<open>pivot\<close> raise \<open>ValueError\<close>.
\<close>

record pivot_table =
  index :: "pystr list"
  pivot_columns :: "pystr list"
  cell_at :: "pystr \<Rightarrow> pystr \<Rightarrow> pyfloat"

definition pivot :: "(pair_summary \<Rightarrow> pyfloat) \<Rightarrow> pair_summary list \<Rightarrow> pyexc + pivot_table" where
  "pivot values grouped =
     (if distinct (map (\<lambda>g. (pair_district g, pair_type g)) grouped)
      then Inr \<lparr>index = sort (remdups (map pair_district grouped)),
                pivot_columns = sort (remdups (map pair_type grouped)),
                cell_at = (\<lambda>d t. case find (\<lambda>g. pair_district g = d \<and> pair_type g = t) grouped of
                               None \<Rightarrow> NaN | Some g \<Rightarrow> values g)\<rparr>
      else Inl ValueErr)"

definition compute_average_prices :: "frame \<Rightarrow> pyexc + pivot_table \<times> pivot_table" where
  "compute_average_prices data =
     (if list_all (\<lambda>col. col \<in> set (columns data))
           [col_district, col_type, col_unit_price, col_total_price]
      then ebind (pair_summaries data (pair_keys data)) (\<lambda>grouped.
           ebind (pivot pair_mean_unit_price grouped) (\<lambda>pivot_unit_price.
           ebind (pivot pair_mean_total_price grouped) (\<lambda>pivot_total_price.
             Inr (pivot_unit_price, pivot_total_price))))
      else Inl KeyErr)"

section \<open>Properties of the token scanner and of the arithmetic\<close>

lemma not_digit_dot: "\<not> is_digit dot"
  by (simp add: is_digit_def nd_zeros_def in_run_def dot_def)

lemma findall_no_digit: "list_all (\<lambda>c. \<not> is_digit c) s \<Longrightarrow> findall_number s = []"
  by (induction s) auto

lemma takeWhile_digits_append:
  "list_all is_digit ds \<Longrightarrow> takeWhile is_digit (ds @ dot # fs) = ds"
  by (induction ds) (auto simp: not_digit_dot)

lemma dropWhile_digits_append:
  "list_all is_digit ds \<Longrightarrow> dropWhile is_digit (ds @ dot # fs) = dot # fs"
  by (induction ds) (auto simp: not_digit_dot)

lemma list_all_takeWhile: "list_all P (takeWhile P xs)"
  by (induction xs) auto

lemma takeWhile_all: "list_all P xs \<Longrightarrow> takeWhile P xs = xs"
  by (induction xs) auto

lemma dropWhile_all: "list_all P xs \<Longrightarrow> dropWhile P xs = []"
  by (induction xs) auto

lemma match_number_token:
  assumes "is_digit c"
  shows "\<exists>ds fs. fst (match_number (c # cs)) = c # ds \<and> list_all is_digit ds \<or>
          fst (match_number (c # cs)) = c # ds @ dot # fs \<and> list_all is_digit ds \<and> list_all is_digit fs"
proof (cases "dropWhile is_digit cs")
  case Nil
  have "fst (match_number (c # cs)) = c # takeWhile is_digit cs"
    using assms by (simp add: match_number_def Let_def Nil del: dropWhile_eq_Nil_conv)
  then show ?thesis using list_all_takeWhile by blast
next
  case (Cons x r)
  then have nx: "\<not> is_digit x"
    by (metis hd_dropWhile list.sel(1) list.distinct(1))
  show ?thesis
  proof (cases "x = dot")
    case True
    with assms Cons have "fst (match_number (c # cs)) = c # takeWhile is_digit cs @ dot # takeWhile is_digit r"
      by (simp add: match_number_def Let_def)
    then show ?thesis using list_all_takeWhile by blast
  next
    case False
    have "fst (match_number (c # cs)) = c # takeWhile is_digit cs"
      using assms False nx by (simp add: match_number_def Let_def Cons)
    then show ?thesis using list_all_takeWhile by blast
  qed
qed

lemma is_literal_shapes:
  "is_digit c \<Longrightarrow> list_all is_digit ds \<Longrightarrow> is_literal (c # ds)"
  "is_digit c \<Longrightarrow> list_all is_digit ds \<Longrightarrow> list_all is_digit fs \<Longrightarrow> is_literal (c # ds @ dot # fs)"
  by (simp_all add: is_literal_def Let_def takeWhile_all dropWhile_all
        takeWhile_digits_append dropWhile_digits_append)

lemma findall_tokens:
  "t \<in> set (findall_number s) \<Longrightarrow> \<exists>c cs. is_digit c \<and> t = fst (match_number (c # cs))"
  by (induction s rule: findall_number.induct) (auto split: if_splits)


lemma pow2_pos: "0 < pow2 e"
  by (simp add: pow2_def)

lemma round_half_even_nonneg: "0 \<le> q \<Longrightarrow> 0 \<le> round_half_even q"
  by (auto simp: round_half_even_def Let_def)

lemma fl_pos_nonneg: "0 \<le> q \<Longrightarrow> fnonneg (fl_pos q)"
  by (simp add: fl_pos_def fnonneg_def Let_def round_half_even_nonneg pow2_pos less_imp_le)

lemma fl_nonneg: "0 \<le> q \<Longrightarrow> fnonneg (fl q)"
  by (simp add: fl_def fl_pos_nonneg)

lemma foldl_digits_nonneg: "0 \<le> a \<Longrightarrow> 0 \<le> foldl (\<lambda>acc c. 10 * acc + int (digit_value c)) a ds"
  by (induction ds arbitrary: a) auto

lemma literal_value_nonneg: "0 \<le> literal_value t"
  by (simp add: literal_value_def digits_value_def Let_def foldl_digits_nonneg)

lemma py_float_literal: "is_literal t \<Longrightarrow> \<exists>x. py_float t = Inr x \<and> fnonneg x"
  by (simp add: py_float_def fl_nonneg literal_value_nonneg)

lemma fnonneg_not_negative: "fnonneg x \<Longrightarrow> not_negative x"
  by (cases x) (simp_all add: fnonneg_def not_negative_def)

lemma fadd_nonneg: "fnonneg x \<Longrightarrow> fnonneg y \<Longrightarrow> fnonneg (fadd x y)"
  by (cases x; cases y) (simp_all add: fnonneg_def fl_nonneg[unfolded fnonneg_def])

lemma foldl_fadd_nonneg: "fnonneg x \<Longrightarrow> list_all fnonneg xs \<Longrightarrow> fnonneg (foldl fadd x xs)"
  by (induction xs arbitrary: x) (auto simp: fadd_nonneg)

lemma py_sum_nonneg: "fnonneg (py_sum xs)" if "list_all fnonneg xs"
proof (cases xs)
  case Nil
  then show ?thesis by (simp add: py_sum_def fnonneg_def)
next
  case (Cons a list)
  with that show ?thesis by (simp add: py_sum_def foldl_fadd_nonneg)
qed

lemma truediv_int_not_negative:
  assumes "fnonneg x" "0 < n" "truediv_int x n = Inr y"
  shows "not_negative y"
proof -
  from assms obtain d where d: "fl (of_int n) = Fin d" and y: "y = fdiv x (Fin d)"
    by (auto simp: truediv_int_def split: pyfloat.splits)
  have "fnonneg (fl (of_int n))" using assms(2) by (simp add: fl_nonneg)
  with d have d0: "0 \<le> d" by (simp add: fnonneg_def)
  show ?thesis
  proof (cases x)
    case (Fin a)
    with assms(1) have a0: "0 \<le> a" by (simp add: fnonneg_def)
    show ?thesis
    proof (cases "d = 0")
      case True
      with Fin y a0 show ?thesis by (simp add: not_negative_def)
    next
      case False
      with a0 d0 have "fnonneg (fl (a / d))" by (simp add: fl_nonneg)
      with Fin y False show ?thesis by (simp add: fnonneg_not_negative)
    qed
  next
    case PInf
    with y d0 show ?thesis by (simp add: not_negative_def)
  qed (use assms(1) in \<open>simp_all add: fnonneg_def\<close>)
qed

lemma py_round_not_negative: "not_negative x \<Longrightarrow> py_round x = Inr n \<Longrightarrow> 0 \<le> n"
  by (cases x) (auto simp: py_round_def not_negative_def round_half_even_nonneg)

lemma py_int_not_negative: "not_negative x \<Longrightarrow> py_int x = Inr n \<Longrightarrow> 0 \<le> n"
  by (cases x) (auto simp: py_int_def not_negative_def trunc_def)

lemma findall_literals: "list_all is_literal (findall_number s)"
proof -
  have "is_literal t" if "t \<in> set (findall_number s)" for t
  proof -
    from that obtain c cs where c: "is_digit c" and t: "t = fst (match_number (c # cs))"
      using findall_tokens by blast
    from match_number_token[OF c, of cs] t show ?thesis
      using is_literal_shapes c by auto
  qed
  then show ?thesis by (simp add: list_all_iff)
qed

lemma floats_literals:
  "list_all is_literal nums \<Longrightarrow> \<exists>xs. floats nums = Inr xs \<and> list_all fnonneg xs \<and> length xs = length nums"
proof (induction nums)
  case Nil
  then show ?case by simp
next
  case (Cons t ts)
  then obtain x xs where "py_float t = Inr x" "fnonneg x" "floats ts = Inr xs" "list_all fnonneg xs"
      "length xs = length ts"
    using py_float_literal by fastforce
  then show ?case by (simp add: ebind_def)
qed

lemma collect_rooms_nonneg:
  "list_all fnonneg acc \<Longrightarrow> \<exists>xs. collect_rooms rooms acc = Inr xs \<and> list_all fnonneg xs"
proof (induction rooms arbitrary: acc)
  case Nil
  then show ?case by simp
next
  case (Cons room rooms)
  show ?case
  proof (cases room)
    case (PStr s)
    obtain xs where xs: "floats (findall_number s) = Inr xs" "list_all fnonneg xs"
      using floats_literals[OF findall_literals] by blast
    with Cons.prems have "list_all fnonneg (acc @ xs)" by simp
    from Cons.IH[OF this] Cons.IH[OF Cons.prems] xs PStr show ?thesis
      by (simp add: ebind_def extract_number_def)
  qed (use Cons in simp_all)
qed


lemma bitlen_eval:
  "bitlen 1 = 1"
  "bitlen (numeral k) = bitlen (numeral k div 2) + 1"
  by (simp_all add: compute_bitlen[of "numeral k"] compute_bitlen[of 1])

lemma floor_rat_eval:
  "\<lfloor>(numeral a :: rat) / numeral b\<rfloor> = numeral a div numeral b"
  "\<lfloor>(1 :: rat) / numeral b\<rfloor> = 1 div numeral b"
  "\<lceil>(numeral a :: rat) / numeral b\<rceil> = - (- numeral a div numeral b)"
  "\<lceil>(1 :: rat) / numeral b\<rceil> = - (- 1 div numeral b)"
     apply (metis floor_divide_of_int_eq of_int_numeral)
    apply (metis floor_divide_of_int_eq of_int_numeral of_int_1)
   apply (metis ceiling_def floor_divide_of_int_eq minus_divide_left of_int_minus of_int_numeral)
  apply (metis ceiling_def floor_divide_of_int_eq minus_divide_left of_int_minus of_int_numeral of_int_1)
  done

lemmas fl_eval = fl_def fl_pos_def ilog2_def bitlen_eval floor_rat_eval pow2_def
  round_half_even_def Let_def

lemma fl_two: "fl 2 = Fin 2"
  by (simp add: fl_eval)

lemma truediv_two: "truediv_int x 2 = Inr (midpoint x' y')" if "x = fadd x' y'"
  using that fl_two by (simp add: truediv_int_def midpoint_def)

lemma room_field_result:
  assumes "room_field rooms = Inr v"
  shows "v = PStr [] \<or> (\<exists>n. v = PInt n \<and> 0 \<le> n)"
proof -
  obtain xs where xs: "collect_rooms rooms [] = Inr xs" "list_all fnonneg xs"
    using collect_rooms_nonneg[of "[]" rooms] by auto
  show ?thesis
  proof (cases "xs = []")
    case True
    with xs assms show ?thesis by (simp add: room_field_def ebind_def)
  next
    case False
    with xs assms obtain y n where y: "truediv_int (py_sum xs) (int (length xs)) = Inr y"
      and n: "py_round y = Inr n" and v: "v = PInt n"
      by (auto simp: room_field_def ebind_def split: sum.splits)
    from False have "0 < int (length xs)" by simp
    from truediv_int_not_negative[OF py_sum_nonneg[OF xs(2)] this y] n v
    show ?thesis by (simp add: py_round_not_negative)
  qed
qed

lemma area_field_cases:
  "area_field s =
     (case findall_number s of
        [] \<Rightarrow> Inr (PStr [])
      | [t] \<Rightarrow> ebind (py_float t) (\<lambda>x. ebind (py_round x) (\<lambda>n. Inr (PInt n)))
      | lower # upper # rest \<Rightarrow>
          ebind (py_float lower) (\<lambda>lo. ebind (py_float upper) (\<lambda>up.
            ebind (py_round (midpoint lo up)) (\<lambda>n. Inr (PInt n)))))"
proof (cases "findall_number s")
  case Nil
  then show ?thesis by (simp add: area_field_def extract_number_def ebind_def)
next
  case (Cons t ts)
  show ?thesis
  proof (cases ts)
    case Nil
    with Cons show ?thesis by (simp add: area_field_def extract_number_def ebind_def)
  next
    case (Cons u us)
    have "truediv_int x 2 = Inr (fdiv x (Fin 2))" for x
      using fl_two by (simp add: truediv_int_def)
    with Cons \<open>findall_number s = t # ts\<close> show ?thesis
      by (simp add: area_field_def extract_number_def ebind_def midpoint_def)
  qed
qed

lemma price_field_cases:
  "price_field s =
     (case findall_number s of
        [] \<Rightarrow> Inr (PStr [])
      | t # rest \<Rightarrow> ebind (py_float t) (\<lambda>x. ebind (py_int x) (\<lambda>n. Inr (PInt n))))"
  by (cases "findall_number s") (simp_all add: price_field_def extract_number_def ebind_def)

lemmas col_defs = col_name_def col_type_def col_district_def col_street_def
      col_detail_def col_room_def col_area_def col_total_price_def col_unit_price_def

lemma ebind_Inr: "ebind m f = Inr y \<Longrightarrow> \<exists>x. m = Inr x \<and> f x = Inr y"
  by (cases m) (simp_all add: ebind_def)

lemma process_record_fields:
  assumes "process_record record = Inr row"
  shows "\<exists>room area total_price unit_price.
      room_field (get_list record (ascii ''room'')) = Inr room \<and>
      area_field (safe_get_str record (ascii ''area'')) = Inr area \<and>
      price_field (safe_get_str record (ascii ''total_price'')) = Inr total_price \<and>
      price_field (safe_get_str record (ascii ''unit_price'')) = Inr unit_price \<and>
      row = [col_name \<mapsto> PStr (safe_get_str record (ascii ''name'')),
             col_type \<mapsto> PStr (safe_get_str record (ascii ''type'')),
             col_district \<mapsto> location_field (get_list record (ascii ''location'')) 0,
             col_street \<mapsto> location_field (get_list record (ascii ''location'')) 1,
             col_detail \<mapsto> location_field (get_list record (ascii ''location'')) 2,
             col_room \<mapsto> room, col_area \<mapsto> area,
             col_total_price \<mapsto> total_price, col_unit_price \<mapsto> unit_price]"
proof -
  from assms obtain room where 1: "room_field (get_list record (ascii ''room'')) = Inr room"
    unfolding process_record_def Let_def by (blast dest: ebind_Inr)
  from assms 1 obtain area where 2: "area_field (safe_get_str record (ascii ''area'')) = Inr area"
    unfolding process_record_def Let_def by (auto simp: ebind_def[of "Inr room"] dest: ebind_Inr)
  from assms 1 2 obtain total_price where
    3: "price_field (safe_get_str record (ascii ''total_price'')) = Inr total_price"
    unfolding process_record_def Let_def
    by (auto simp: ebind_def[of "Inr room"] ebind_def[of "Inr area"] dest: ebind_Inr)
  from assms 1 2 3 obtain unit_price where
    4: "price_field (safe_get_str record (ascii ''unit_price'')) = Inr unit_price"
    unfolding process_record_def Let_def
    by (auto simp: ebind_def[of "Inr room"] ebind_def[of "Inr area"] ebind_def[of "Inr total_price"]
        dest: ebind_Inr)
  from assms 1 2 3 4 show ?thesis
    unfolding process_record_def Let_def by (simp add: ebind_def)
qed


lemma is_literal_chars: "is_literal t \<Longrightarrow> c \<in> set t \<Longrightarrow> is_digit c \<or> c = dot"
proof -
  assume l: "is_literal t" and c: "c \<in> set t"
  have "t = takeWhile is_digit t @ dropWhile is_digit t" by simp
  with c have "c \<in> set (takeWhile is_digit t) \<or> c \<in> set (dropWhile is_digit t)"
    by (metis Un_iff set_append)
  then show ?thesis
  proof
    assume "c \<in> set (takeWhile is_digit t)"
    then show ?thesis by (auto dest: set_takeWhileD)
  next
    assume "c \<in> set (dropWhile is_digit t)"
    with l show ?thesis
      by (cases "dropWhile is_digit t") (auto simp: is_literal_def Let_def list_all_iff)
  qed
qed

lemma is_literal_hd: "is_literal t \<Longrightarrow> t \<noteq> [] \<and> is_digit (hd t)"
  by (cases t) (auto simp: is_literal_def Let_def split: if_splits)

lemma field_not_negative:
  assumes "py_float t = Inr x" "is_literal t"
  shows "fnonneg x"
  using assms py_float_literal by fastforce

lemma area_field_result:
  assumes "area_field s = Inr v"
  shows "v = PStr [] \<or> (\<exists>n. v = PInt n \<and> 0 \<le> n)"
proof (cases "findall_number s")
  case Nil
  with assms show ?thesis by (simp add: area_field_cases)
next
  case (Cons t ts)
  have lit: "list_all is_literal (t # ts)"
    using findall_literals[of s] Cons by simp
  show ?thesis
  proof (cases ts)
    case Nil
    with assms Cons obtain x n where *: "py_float t = Inr x" "py_round x = Inr n" "v = PInt n"
      by (auto simp: area_field_cases dest!: ebind_Inr)
    from lit have "is_literal t" by simp
    then have "not_negative x"
      using *(1) by (intro fnonneg_not_negative field_not_negative)
    with * show ?thesis by (simp add: py_round_not_negative)
  next
    case (Cons u us)
    with assms \<open>findall_number s = t # ts\<close> obtain lo up n where
      *: "py_float t = Inr lo" "py_float u = Inr up" "py_round (midpoint lo up) = Inr n" "v = PInt n"
      by (auto simp: area_field_cases dest!: ebind_Inr)
    from lit Cons have "is_literal t" "is_literal u" by simp_all
    with * have "fnonneg lo" "fnonneg up"
      by (auto intro: field_not_negative)
    then have "fnonneg (fadd lo up)" by (rule fadd_nonneg)
    moreover have "truediv_int (fadd lo up) 2 = Inr (midpoint lo up)"
      by (rule truediv_two) simp
    ultimately have "not_negative (midpoint lo up)"
      using truediv_int_not_negative by (metis zero_less_numeral)
    with * show ?thesis by (simp add: py_round_not_negative)
  qed
qed

lemma price_field_result:
  assumes "price_field s = Inr v"
  shows "v = PStr [] \<or> (\<exists>n. v = PInt n \<and> 0 \<le> n)"
proof (cases "findall_number s")
  case Nil
  with assms show ?thesis by (simp add: price_field_cases)
next
  case (Cons t ts)
  have lit: "is_literal t"
    using findall_literals[of s] Cons by simp
  from assms Cons obtain x n where *: "py_float t = Inr x" "py_int x = Inr n" "v = PInt n"
    by (auto simp: price_field_cases dest!: ebind_Inr)
  from lit have "not_negative x"
    using *(1) by (intro fnonneg_not_negative field_not_negative)
  with * show ?thesis by (simp add: py_int_not_negative)
qed

text \<open>
  Claim C10. Every token that \<open>extract_number\<close> returns for a string starts with a digit
  and is a decimal literal: digits, optionally followed by a dot and further digits. It
  holds no minus sign (code point 45), so \<open>float\<close> of it never raises and gives a
  non-negative value. Hence every integer that \<open>process_record\<close> stores in the room,
  area, total price or unit price field is non-negative.
\<close>

theorem tokens_are_nonnegative_literals:
  "(\<forall>t \<in> set (findall_number s).
       t \<noteq> [] \<and> is_digit (hd t) \<and> is_literal t \<and> 45 \<notin> set t \<and>
       (\<exists>x. py_float t = Inr x \<and> fnonneg x)) \<and>
   (process_record record = Inr row \<longrightarrow>
      (\<forall>k \<in> {col_room, col_area, col_total_price, col_unit_price}.
         \<forall>n. row k = Some (PInt n) \<longrightarrow> 0 \<le> n))"
proof (intro conjI ballI impI allI)
  fix t assume "t \<in> set (findall_number s)"
  then have lit: "is_literal t"
    using findall_literals[of s] by (simp add: list_all_iff)
  then show "t \<noteq> []" "is_digit (hd t)" using is_literal_hd by auto
  show "is_literal t" by (rule lit)
  have "\<not> is_digit 45" "45 \<noteq> dot"
    by (simp_all add: is_digit_def nd_zeros_def in_run_def dot_def)
  then show "45 \<notin> set t" using is_literal_chars[OF lit] by blast
  show "\<exists>x. py_float t = Inr x \<and> fnonneg x" using lit by (rule py_float_literal)
next
  fix k n
  assume row: "process_record record = Inr row"
    and k: "k \<in> {col_room, col_area, col_total_price, col_unit_price}"
    and v: "row k = Some (PInt n)"
  from process_record_fields[OF row] obtain room area total_price unit_price where
    f: "room_field (get_list record (ascii ''room'')) = Inr room"
       "area_field (safe_get_str record (ascii ''area'')) = Inr area"
       "price_field (safe_get_str record (ascii ''total_price'')) = Inr total_price"
       "price_field (safe_get_str record (ascii ''unit_price'')) = Inr unit_price"
    and r: "row col_room = Some room" "row col_area = Some area"
       "row col_total_price = Some total_price" "row col_unit_price = Some unit_price"
    by (auto simp: col_defs)
  from k v r have "PInt n \<in> {room, area, total_price, unit_price}" by auto
  with room_field_result[OF f(1)] area_field_result[OF f(2)]
    price_field_result[OF f(3)] price_field_result[OF f(4)]
  show "0 \<le> n" by auto
qed


lemmas tok_eval = ascii_def match_number_def is_digit_def nd_zeros_def in_run_def dot_def
  is_literal_def literal_value_def digits_value_def digit_value_def py_float_def

lemmas rec_eval = process_record_def room_field_def area_field_def price_field_def
  extract_number_def safe_get_str_def get_list_def location_field_def strip_def is_space_def
  ebind_def truediv_int_def py_round_def py_int_def py_sum_def trunc_def

subsection \<open>Exactness and error of the float operations\<close>

lemma pow2_powi: "pow2 e = 2 powi e"
  by (simp add: pow2_def power_int_def inverse_eq_divide power_one_over)

lemma pow2_mono: "a \<le> b \<Longrightarrow> pow2 a \<le> pow2 b"
  by (simp add: pow2_powi power_int_increasing)

lemma round_half_even_ge1: "1 \<le> q \<Longrightarrow> 1 \<le> round_half_even q"
proof -
  assume "1 \<le> q"
  then have "1 \<le> \<lfloor>q\<rfloor>" by simp
  then show ?thesis by (auto simp: round_half_even_def Let_def)
qed

lemma ilog2_lower: "1 \<le> q \<Longrightarrow> 0 \<le> ilog2 q \<and> pow2 (ilog2 q) \<le> q"
proof -
  assume q: "1 \<le> q"
  then have f: "0 < \<lfloor>q\<rfloor>" by simp
  from bitlen_bounds[OF f] have b: "2 ^ nat (bitlen \<lfloor>q\<rfloor> - 1) \<le> \<lfloor>q\<rfloor>" ..
  from f have b1: "1 \<le> bitlen \<lfloor>q\<rfloor>"
    by (simp add: bitlen_alt_def)
  have "(2::rat) ^ nat (bitlen \<lfloor>q\<rfloor> - 1) = of_int (2 ^ nat (bitlen \<lfloor>q\<rfloor> - 1))"
    by simp
  also have "\<dots> \<le> of_int \<lfloor>q\<rfloor>"
    using b by (simp only: of_int_le_iff)
  also have "\<dots> \<le> q" by simp
  finally have "(2::rat) ^ nat (bitlen \<lfloor>q\<rfloor> - 1) \<le> q" .
  with q b1 show ?thesis
    by (simp add: ilog2_def pow2_def)
qed

lemma fl_ge1_positive:
  assumes "1 \<le> q"
  shows "fl q = PInf \<or> (\<exists>d. fl q = Fin d \<and> 0 < d)"
proof -
  from ilog2_lower[OF assms] have e: "0 \<le> ilog2 q" and le: "pow2 (ilog2 q) \<le> q"
    by simp_all
  let ?p = "max (ilog2 q) (- 1022) - 52"
  have "pow2 ?p \<le> pow2 (ilog2 q)"
    using e by (intro pow2_mono) simp
  with le have "pow2 ?p \<le> q" by simp
  then have "1 \<le> q / pow2 ?p"
    using pow2_pos[of ?p] by (simp add: pos_le_divide_eq)
  then have "1 \<le> round_half_even (q / pow2 ?p)"
    by (rule round_half_even_ge1)
  then have "0 < rat_of_int (round_half_even (q / pow2 ?p)) * pow2 ?p"
    using pow2_pos[of ?p] by simp
  with assms show ?thesis
    by (simp add: fl_def fl_pos_def Let_def)
qed

lemma truediv_int_nonneg:
  assumes "fnonneg x" "0 < n"
  shows "truediv_int x n = Inl OverflowErr \<or> (\<exists>y. truediv_int x n = Inr y \<and> fnonneg y)"
proof -
  have "1 \<le> rat_of_int n" using assms(2) by simp
  from fl_ge1_positive[OF this] show ?thesis
  proof
    assume "fl (rat_of_int n) = PInf"
    with assms(2) show ?thesis by (simp add: truediv_int_def)
  next
    assume "\<exists>d. fl (rat_of_int n) = Fin d \<and> 0 < d"
    then obtain d where d: "fl (rat_of_int n) = Fin d" "0 < d" by blast
    have "fnonneg (fdiv x (Fin d))"
    proof (cases x)
      case (Fin a)
      with assms(1) have "0 \<le> a / d" using d(2) by (simp add: fnonneg_def)
      then have "fnonneg (fl (a / d))" by (rule fl_nonneg)
      with Fin d show ?thesis by simp
    next
      case PInf
      with d show ?thesis by (simp add: fnonneg_def)
    qed (use assms(1) in \<open>simp_all add: fnonneg_def\<close>)
    with d assms(2) show ?thesis by (simp add: truediv_int_def)
  qed
qed

lemma py_round_nonneg:
  "fnonneg x \<Longrightarrow> py_round x = Inl OverflowErr \<or> (\<exists>n. py_round x = Inr n)"
  by (cases x) (simp_all add: py_round_def fnonneg_def)

lemma py_int_nonneg:
  "fnonneg x \<Longrightarrow> py_int x = Inl OverflowErr \<or> (\<exists>n. py_int x = Inr n)"
  by (cases x) (simp_all add: py_int_def fnonneg_def)

lemma room_field_error: "room_field rooms = Inl e \<Longrightarrow> e = OverflowErr"
proof -
  assume a: "room_field rooms = Inl e"
  obtain xs where xs: "collect_rooms rooms [] = Inr xs" "list_all fnonneg xs"
    using collect_rooms_nonneg[of "[]" rooms] by auto
  show ?thesis
  proof (cases "xs = []")
    case True
    with xs a show ?thesis by (simp add: room_field_def ebind_def)
  next
    case False
    then have n: "0 < int (length xs)" by simp
    from truediv_int_nonneg[OF py_sum_nonneg[OF xs(2)] n] show ?thesis
    proof
      assume "truediv_int (py_sum xs) (int (length xs)) = Inl OverflowErr"
      with xs a False show ?thesis by (simp add: room_field_def ebind_def)
    next
      assume "\<exists>y. truediv_int (py_sum xs) (int (length xs)) = Inr y \<and> fnonneg y"
      then obtain y where y: "truediv_int (py_sum xs) (int (length xs)) = Inr y" "fnonneg y"
        by blast
      from py_round_nonneg[OF y(2)] xs a False y(1) show ?thesis
        by (auto simp: room_field_def ebind_def)
    qed
  qed
qed

lemma area_field_error: "area_field s = Inl e \<Longrightarrow> e = OverflowErr"
proof -
  assume a: "area_field s = Inl e"
  show ?thesis
  proof (cases "findall_number s")
    case Nil
    with a show ?thesis by (simp add: area_field_cases)
  next
    case (Cons t ts)
    have lit: "list_all is_literal (t # ts)"
      using findall_literals[of s] Cons by simp
    then obtain x where x: "py_float t = Inr x" "fnonneg x"
      using py_float_literal[of t] by auto
    show ?thesis
    proof (cases ts)
      case Nil
      from py_round_nonneg[OF x(2)] a Cons Nil x(1) show ?thesis
        by (auto simp: area_field_cases ebind_def)
    next
      case (Cons u us)
      with lit obtain y where y: "py_float u = Inr y" "fnonneg y"
        using py_float_literal[of u] by auto
      have t2: "truediv_int (fadd x y) 2 = Inr (midpoint x y)"
        by (rule truediv_two) simp
      from truediv_int_nonneg[OF fadd_nonneg[OF x(2) y(2)], of 2] t2
      have "fnonneg (midpoint x y)" by simp
      from py_round_nonneg[OF this] a \<open>findall_number s = t # ts\<close> Cons x(1) y(1) show ?thesis
        by (auto simp: area_field_cases ebind_def)
    qed
  qed
qed

lemma price_field_error: "price_field s = Inl e \<Longrightarrow> e = OverflowErr"
proof -
  assume a: "price_field s = Inl e"
  show ?thesis
  proof (cases "findall_number s")
    case Nil
    with a show ?thesis by (simp add: price_field_cases)
  next
    case (Cons t ts)
    have "is_literal t"
      using findall_literals[of s] Cons by simp
    then obtain x where x: "py_float t = Inr x" "fnonneg x"
      using py_float_literal[of t] by auto
    from py_int_nonneg[OF x(2)] a Cons x(1) show ?thesis
      by (auto simp: price_field_cases ebind_def)
  qed
qed

lemma process_record_only_overflow: "process_record record = Inl e \<Longrightarrow> e = OverflowErr"
  unfolding process_record_def Let_def
  by (auto simp: ebind_def split: sum.splits
      dest: room_field_error area_field_error price_field_error)

lemma process_record_row:
  assumes "process_record record = Inr row"
  shows "dom row = set fieldnames"
    and "\<And>k v. row k = Some v \<Longrightarrow> (\<exists>s. v = PStr s) \<or> (\<exists>n. v = PInt n)"
proof -
  from process_record_fields[OF assms] obtain room area total_price unit_price where
    f: "room_field (get_list record (ascii ''room'')) = Inr room"
       "area_field (safe_get_str record (ascii ''area'')) = Inr area"
       "price_field (safe_get_str record (ascii ''total_price'')) = Inr total_price"
       "price_field (safe_get_str record (ascii ''unit_price'')) = Inr unit_price"
    and row: "row = [col_name \<mapsto> PStr (safe_get_str record (ascii ''name'')),
             col_type \<mapsto> PStr (safe_get_str record (ascii ''type'')),
             col_district \<mapsto> location_field (get_list record (ascii ''location'')) 0,
             col_street \<mapsto> location_field (get_list record (ascii ''location'')) 1,
             col_detail \<mapsto> location_field (get_list record (ascii ''location'')) 2,
             col_room \<mapsto> room, col_area \<mapsto> area,
             col_total_price \<mapsto> total_price, col_unit_price \<mapsto> unit_price]"
    by blast
  show "dom row = set fieldnames"
    unfolding row fieldnames_def by auto
  have loc: "\<exists>s. location_field ls i = PStr s" for ls i
    by (simp add: location_field_def split: pyval.splits)
  fix k v assume "row k = Some v"
  then have "v \<in> {PStr (safe_get_str record (ascii ''name'')),
      PStr (safe_get_str record (ascii ''type'')),
      location_field (get_list record (ascii ''location'')) 0,
      location_field (get_list record (ascii ''location'')) 1,
      location_field (get_list record (ascii ''location'')) 2,
      room, area, total_price, unit_price}"
    unfolding row by (auto split: if_splits)
  with loc room_field_result[OF f(1)] area_field_result[OF f(2)]
    price_field_result[OF f(3)] price_field_result[OF f(4)]
  show "(\<exists>s. v = PStr s) \<or> (\<exists>n. v = PInt n)"
    by auto
qed

lemma pow2_add: "pow2 (a + b) = pow2 a * pow2 b"
  by (simp add: pow2_powi power_int_add)

lemma pow2_strict: "pow2 a < pow2 b \<Longrightarrow> a < b"
  using pow2_mono[of b a] by (cases "a < b") auto

lemma pow2_nat: "0 \<le> e \<Longrightarrow> pow2 e = of_int (2 ^ nat e)"
  by (simp add: pow2_def)

lemma round_half_even_int: "round_half_even (of_int n) = n"
  by (simp add: round_half_even_def)

lemma ilog2_le:
  assumes "0 < q"
  shows "pow2 (ilog2 q) \<le> q"
proof (cases "1 \<le> q")
  case True
  then show ?thesis using ilog2_lower by simp
next
  case False
  with assms have q1: "1 < 1 / q" by simp
  define n where "n = \<lceil>1 / q\<rceil> - 1"
  from q1 have n: "0 < n" unfolding n_def by linarith
  from bitlen_bounds[OF n] have "n < 2 ^ nat (bitlen n)" ..
  then have c: "\<lceil>1 / q\<rceil> \<le> 2 ^ nat (bitlen n)" unfolding n_def by simp
  have "1 / q \<le> rat_of_int \<lceil>1 / q\<rceil>" by (rule le_of_int_ceiling)
  also have "\<dots> \<le> rat_of_int (2 ^ nat (bitlen n))"
    using c by (simp only: of_int_le_iff)
  also have "\<dots> = 2 ^ nat (bitlen n)" by simp
  finally have "1 / q \<le> 2 ^ nat (bitlen n)" .
  with assms have le: "1 / 2 ^ nat (bitlen n) \<le> q"
    by (simp add: field_simps)
  have "0 \<le> bitlen n" by (rule bitlen_nonneg)
  moreover from n have "bitlen n \<noteq> 0" by (simp add: bitlen_eq_zero_iff)
  ultimately have "pow2 (- bitlen n) = 1 / 2 ^ nat (bitlen n)"
    by (simp add: pow2_def)
  with le False show ?thesis
    by (simp add: ilog2_def n_def)
qed

lemma fl_exact:
  assumes m: "0 < m" "m < 2 ^ 53" and k: "- 1074 \<le> k"
    and fin: "of_int m * pow2 k < pow2 1024"
  shows "fl (of_int m * pow2 k) = Fin (of_int m * pow2 k)"
proof -
  define q where "q = rat_of_int m * pow2 k"
  define p where "p = max (ilog2 q) (- 1022) - 52"
  have q: "0 < q" using m(1) pow2_pos[of k] by (simp add: q_def)
  have pk: "p \<le> k"
  proof (cases "ilog2 q \<le> - 1022")
    case True
    with k show ?thesis by (simp add: p_def)
  next
    case False
    have "rat_of_int m < 2 ^ 53"
      using m(2) by (simp add: of_int_less_numeral_power_cancel_iff)
    then have "q < 2 ^ 53 * pow2 k"
      using pow2_pos[of k] by (simp add: q_def)
    also have "\<dots> = pow2 53 * pow2 k"
      by (simp add: pow2_def)
    also have "\<dots> = pow2 (53 + k)"
      by (simp add: pow2_add)
    finally have "q < pow2 (53 + k)" .
    with ilog2_le[OF q] have "pow2 (ilog2 q) < pow2 (53 + k)" by simp
    then have "ilog2 q < 53 + k" by (rule pow2_strict)
    with False show ?thesis by (simp add: p_def)
  qed
  then have d: "0 \<le> k - p" by simp
  define N where "N = m * 2 ^ nat (k - p)"
  have "pow2 k = pow2 ((k - p) + p)" by simp
  also have "\<dots> = pow2 (k - p) * pow2 p" by (rule pow2_add)
  also have "pow2 (k - p) = of_int (2 ^ nat (k - p))" by (rule pow2_nat[OF d])
  finally have "q = rat_of_int N * pow2 p"
    by (simp add: q_def N_def)
  moreover have pp: "0 < pow2 p" by (rule pow2_pos)
  ultimately have "q / pow2 p = rat_of_int N" by simp
  then have "round_half_even (q / pow2 p) = N"
    by (simp only: round_half_even_int)
  with \<open>q = rat_of_int N * pow2 p\<close>
  have r: "rat_of_int (round_half_even (q / pow2 p)) * pow2 p = q" by simp
  have "fl_pos q = Fin q"
    using q fin unfolding fl_pos_def Let_def p_def[symmetric] r by (simp add: q_def)
  with q show ?thesis
    by (simp add: fl_def q_def)
qed

lemma fl_int_exact:
  assumes "0 \<le> n" "n < 2 ^ 53"
  shows "fl (of_int n) = Fin (of_int n)"
proof (cases "n = 0")
  case True
  then show ?thesis by (simp add: fl_def fl_pos_def)
next
  case False
  with assms have m: "0 < n" by simp
  have "rat_of_int n < 2 ^ 53"
    using assms(2) by (simp add: of_int_less_numeral_power_cancel_iff)
  also have "\<dots> < (2::rat) ^ 1024" by simp
  finally have "rat_of_int n * pow2 0 < pow2 1024"
    by (simp add: pow2_def)
  from fl_exact[OF m assms(2) _ this] show ?thesis
    by (simp add: pow2_def)
qed

lemma fl_half_exact:
  assumes "0 \<le> n" "n < 2 ^ 53"
  shows "fl (of_int n / 2) = Fin (of_int n / 2)"
proof (cases "n = 0")
  case True
  then show ?thesis by (simp add: fl_def fl_pos_def)
next
  case False
  with assms have m: "0 < n" by simp
  have "rat_of_int n < 2 ^ 53"
    using assms(2) by (simp add: of_int_less_numeral_power_cancel_iff)
  also have "\<dots> < (2::rat) ^ 1024" by simp
  finally have "rat_of_int n * pow2 (- 1) < pow2 1024"
    by (simp add: pow2_def)
  from fl_exact[OF m assms(2) _ this] show ?thesis
    by (simp add: pow2_def)
qed


lemma py_float_integer:
  assumes "t \<noteq> []" "list_all is_digit t" "digits_value t < 2 ^ 53"
  shows "py_float t = Inr (Fin (of_int (digits_value t)))"
proof -
  have tw: "takeWhile is_digit t = t" "dropWhile is_digit t = []"
    using assms(2) by (simp_all add: takeWhile_all dropWhile_all)
  have lit: "is_literal t"
    unfolding is_literal_def Let_def tw using assms(1) by simp
  have v: "literal_value t = of_int (digits_value t)"
    unfolding literal_value_def Let_def tw by (simp add: digits_value_def)
  have "0 \<le> digits_value t"
    by (simp add: digits_value_def foldl_digits_nonneg)
  from fl_int_exact[OF this assms(3)] lit v show ?thesis
    by (simp add: py_float_def)
qed

(*ARITHEND*)

text \<open>
  Claim C1 says that \<open>extract_number\<close> treats \<open>None\<close> and every other non-string as
  empty text. It does not: \<open>re.findall\<close> raises \<open>TypeError\<close> on \<open>None\<close>.
\<close>

theorem extract_number_None_raises: "extract_number PNone = Inl TypeErr"
  by (simp add: extract_number_def)

lemma safe_get_str_guard:
  "record key = None \<or> (\<exists>w. record key = Some w \<and> \<not> is_str w) \<Longrightarrow> safe_get_str record key = []"
proof (elim disjE exE conjE)
  assume "record key = None"
  then show ?thesis by (simp add: safe_get_str_def)
next
  fix w assume "record key = Some w" "\<not> is_str w"
  then show ?thesis by (cases w) (simp_all add: safe_get_str_def is_str_def)
qed

text \<open>
  Claim C1, as the code has it. On a string without digits \<open>extract_number\<close> yields the
  empty sequence. On a value that is not a string it raises \<open>TypeError\<close>; its callers
  keep such values away from it: \<open>safe_get_str\<close> turns an absent field and a field that
  is not a string into the empty text, on which the extraction yields the empty
  sequence, and the loop over the rooms skips every entry that is not a string.
\<close>

theorem extract_number_guarded:
  "(list_all (\<lambda>c. \<not> is_digit c) s \<longrightarrow> extract_number (PStr s) = Inr []) \<and>
   (\<not> is_str v \<longrightarrow> extract_number v = Inl TypeErr) \<and>
   (record key = None \<or> (\<exists>w. record key = Some w \<and> \<not> is_str w) \<longrightarrow>
      safe_get_str record key = [] \<and>
      extract_number (PStr (safe_get_str record key)) = Inr []) \<and>
   (\<not> is_str v \<longrightarrow> collect_rooms (v # rooms) acc = collect_rooms rooms acc)"
proof -
  have a: "extract_number (PStr s) = Inr []" if "list_all (\<lambda>c. \<not> is_digit c) s"
    using that by (simp add: extract_number_def findall_no_digit)
  have b: "extract_number v = Inl TypeErr" if "\<not> is_str v"
    using that by (cases v) (simp_all add: extract_number_def is_str_def)
  have c: "safe_get_str record key = [] \<and> extract_number (PStr (safe_get_str record key)) = Inr []"
    if "record key = None \<or> (\<exists>w. record key = Some w \<and> \<not> is_str w)"
    using safe_get_str_guard[of "record" key] that by (simp add: extract_number_def)
  have d: "collect_rooms (v # rooms) acc = collect_rooms rooms acc" if "\<not> is_str v"
    using that by (cases v) (simp_all add: is_str_def)
  from a b c d show ?thesis by blast
qed

theorem extract_number_guarded_witness:
  "extract_number (PStr (ascii ''abc'')) = Inr [] \<and>
   extract_number (PInt 5) = Inl TypeErr \<and>
   safe_get_str [ascii ''area'' \<mapsto> PNone] (ascii ''area'') = [] \<and>
   safe_get_str Map.empty (ascii ''area'') = [] \<and>
   collect_rooms [PInt 5, PStr (ascii ''3'')] [] = collect_rooms [PStr (ascii ''3'')] []"
proof -
  have 1: "list_all (\<lambda>c. \<not> is_digit c) (ascii ''abc'')"
    by (simp add: tok_eval)
  have 2: "\<not> is_str (PInt 5)" "\<not> is_str PNone"
    by (simp_all add: is_str_def)
  have 3: "[ascii ''area'' \<mapsto> PNone] (ascii ''area'') = Some PNone"
    by simp
  have 4: "(Map.empty :: pydict) (ascii ''area'') = None"
    by simp
  from extract_number_guarded[of "ascii ''abc''" "PInt 5" "[ascii ''area'' \<mapsto> PNone]" "ascii ''area''"
        "[PStr (ascii ''3'')]" "[]"]
     extract_number_guarded[of "[]" "PNone" "Map.empty" "ascii ''area''" "[]" "[]"]
     1 2 3 4
  show ?thesis by blast
qed








lemma dropWhile_none: "list_all (\<lambda>x. \<not> P x) xs \<Longrightarrow> dropWhile P xs = xs"
  by (cases xs) simp_all

lemma digits_value_zeros:
  "foldl (\<lambda>acc c. 10 * acc + int (digit_value c)) a (replicate n 48) = a * 10 ^ n"
  by (induction n arbitrary: a) (simp_all add: digit_value_def nd_zeros_def in_run_def)

lemma one_and_zeros:
  "is_literal (49 # replicate n 48)"
  "literal_value (49 # replicate n 48) = 10 ^ n"
  "findall_number (49 # replicate n 48) = [49 # replicate n 48]"
  "strip (49 # replicate n 48) = 49 # replicate n 48"
proof -
  let ?t = "49 # replicate n 48"
  have d: "is_digit 49" "is_digit 48" "\<not> is_space 49" "\<not> is_space 48"
    by (simp_all add: is_digit_def nd_zeros_def in_run_def is_space_def)
  then have all: "list_all is_digit ?t"
    by (simp add: list_all_iff)
  then have tw: "takeWhile is_digit ?t = ?t" and dw: "dropWhile is_digit ?t = []"
    by (rule takeWhile_all, rule dropWhile_all)
  show "is_literal ?t"
    unfolding is_literal_def Let_def tw dw by simp
  have "digit_value 49 = 1"
    by (simp add: digit_value_def nd_zeros_def in_run_def)
  then show "literal_value ?t = 10 ^ n"
    unfolding literal_value_def Let_def tw
    by (simp add: digits_value_def digits_value_zeros)
  have "match_number ?t = (?t, [])"
    unfolding match_number_def Let_def tw dw by simp
  with d show "findall_number ?t = [?t]"
    by simp
  have ns: "list_all (\<lambda>c. \<not> is_space c) ?t"
    using d by (simp add: list_all_iff)
  then have nr: "list_all (\<lambda>c. \<not> is_space c) (rev ?t)"
    by (simp add: list_all_iff)
  have a: "dropWhile is_space ?t = ?t"
    by (rule dropWhile_none[OF ns])
  have b: "dropWhile is_space (rev ?t) = rev ?t"
    by (rule dropWhile_none[OF nr])
  show "strip ?t = ?t"
    unfolding strip_def a b by (rule rev_rev_ident)
qed

text \<open>
  Claim C4 says that \<open>process_record\<close> never raises and always returns the nine fields.
  A token of 310 digits, a one followed by 309 zeros, is more than the largest finite
  float: \<open>float\<close> gives \<open>inf\<close>, \<open>int(inf)\<close> raises \<open>OverflowError\<close>, and no row is
  returned.
\<close>

theorem process_record_overflow:
  "process_record [ascii ''total_price'' \<mapsto> PStr (49 # replicate 309 48)] = Inl OverflowErr"
proof -
  let ?t = "49 # replicate 309 48"
  let ?rec = "[ascii ''total_price'' \<mapsto> PStr ?t]"
  have "fl (10 ^ 309) = PInf"
    by (simp add: fl_eval)
  then have "py_float ?t = Inr PInf"
    by (simp add: py_float_def one_and_zeros)
  then have p: "price_field ?t = Inl OverflowErr"
    by (simp add: price_field_cases one_and_zeros ebind_def py_int_def del: findall_number.simps)
  have r: "room_field (get_list ?rec (ascii ''room'')) = Inr (PStr [])"
    by (simp add: room_field_def get_list_def ascii_def ebind_def)
  have a: "area_field (safe_get_str ?rec (ascii ''area'')) = Inr (PStr [])"
    by (simp add: area_field_cases safe_get_str_def ascii_def)
  have s: "safe_get_str ?rec (ascii ''total_price'') = ?t"
    by (simp add: safe_get_str_def one_and_zeros del: replicate.simps)
  show ?thesis
    unfolding process_record_def Let_def r a s p by (simp add: ebind_def)
qed

theorem tokens_are_nonnegative_literals_witness:
  "findall_number (ascii ''-5.5'') = [ascii ''5.5''] \<and>
   45 \<notin> set (ascii ''5.5'') \<and> is_literal (ascii ''5.5'') \<and>
   (\<exists>x. py_float (ascii ''5.5'') = Inr x \<and> fnonneg x) \<and>
   process_record [ascii ''total_price'' \<mapsto> PStr (ascii ''-5.5'')] =
     Inr [col_name \<mapsto> PStr [], col_type \<mapsto> PStr [], col_district \<mapsto> PStr [],
          col_street \<mapsto> PStr [], col_detail \<mapsto> PStr [], col_room \<mapsto> PStr [],
          col_area \<mapsto> PStr [], col_total_price \<mapsto> PInt 5, col_unit_price \<mapsto> PStr []] \<and>
   (0::int) \<le> 5"
proof -
  let ?rec = "[ascii ''total_price'' \<mapsto> PStr (ascii ''-5.5'')]"
  let ?row = "[col_name \<mapsto> PStr [], col_type \<mapsto> PStr [], col_district \<mapsto> PStr [],
          col_street \<mapsto> PStr [], col_detail \<mapsto> PStr [], col_room \<mapsto> PStr [],
          col_area \<mapsto> PStr [], col_total_price \<mapsto> PInt 5, col_unit_price \<mapsto> PStr []]"
  have t: "findall_number (ascii ''-5.5'') = [ascii ''5.5'']"
    by (simp add: tok_eval)
  have h: "process_record ?rec = Inr ?row"
    by (simp add: tok_eval rec_eval fl_eval)
  have k: "col_total_price \<in> {col_room, col_area, col_total_price, col_unit_price}"
    by simp
  have r: "?row col_total_price = Some (PInt 5)"
    by (simp add: col_defs)
  note main = tokens_are_nonnegative_literals[of "ascii ''-5.5''" ?rec ?row]
  from main t have "45 \<notin> set (ascii ''5.5'')" "is_literal (ascii ''5.5'')"
    "\<exists>x. py_float (ascii ''5.5'') = Inr x \<and> fnonneg x"
    by simp_all
  moreover from main h k r have "(0::int) \<le> 5"
    by blast
  ultimately show ?thesis using t h by blast
qed

lemma check_columns_first:
  "check_columns required_columns cols = Some col \<Longrightarrow>
     \<exists>before after. required_columns = before @ col # after \<and> set before \<subseteq> set cols \<and>
       col \<notin> set cols"
proof (induction required_columns)
  case Nil
  then show ?case by simp
next
  case (Cons c cs)
  show ?case
  proof (cases "c \<in> set cols")
    case True
    with Cons obtain before after where "cs = before @ col # after" "set before \<subseteq> set cols"
      "col \<notin> set cols"
      by auto
    with True have "c # cs = (c # before) @ col # after \<and> set (c # before) \<subseteq> set cols \<and>
       col \<notin> set cols"
      by simp
    then show ?thesis by blast
  next
    case False
    with Cons.prems have "c # cs = [] @ col # cs \<and> set [] \<subseteq> set cols \<and> col \<notin> set cols"
      by simp
    then show ?thesis by blast
  qed
qed

lemma check_columns_some:
  "c \<in> set required_columns \<Longrightarrow> c \<notin> set cols \<Longrightarrow> \<exists>col. check_columns required_columns cols = Some col"
  by (induction required_columns) auto

text \<open>
  Claim C6. Whatever the list of required columns, when the loaded table lacks one of
  them \<open>load_data\<close> reports one missing column, namely the first column of the list, in
  the list's order, that the table lacks, and returns no table. In particular the
  scripts of \<open>average_price_per_district.py\<close> and \<open>radar_chart.py\<close> report the district
  column when it is the one that is absent.
\<close>

theorem missing_column_reported:
  "(c \<in> set required_columns \<and> c \<notin> set (columns data) \<longrightarrow>
      (\<exists>before col after.
          required_columns = before @ col # after \<and> set before \<subseteq> set (columns data) \<and>
          col \<notin> set (columns data) \<and>
          load version parse repr required_columns numeric strings (Parsed data) =
            Inl (MissingColumn col))) \<and>
   (col_district \<notin> set (columns data) \<and> col_unit_price \<in> set (columns data) \<and>
    col_total_price \<in> set (columns data) \<longrightarrow>
      load_data_district version parse repr (Parsed data) = Inl (MissingColumn col_district)) \<and>
   (col_district \<notin> set (columns data) \<and> col_name \<in> set (columns data) \<and>
    col_type \<in> set (columns data) \<longrightarrow>
      load_data_radar version parse repr (Parsed data) = Inl (MissingColumn col_district))"
proof (intro conjI impI)
  assume "c \<in> set required_columns \<and> c \<notin> set (columns data)"
  then obtain col where col: "check_columns required_columns (columns data) = Some col"
    using check_columns_some by blast
  then have "load version parse repr required_columns numeric strings (Parsed data) =
            Inl (MissingColumn col)"
    by (simp add: load_def)
  with check_columns_first[OF col] show "\<exists>before col after.
          required_columns = before @ col # after \<and> set before \<subseteq> set (columns data) \<and>
          col \<notin> set (columns data) \<and>
          load version parse repr required_columns numeric strings (Parsed data) =
            Inl (MissingColumn col)"
    by blast
next
  assume "col_district \<notin> set (columns data) \<and> col_unit_price \<in> set (columns data) \<and>
    col_total_price \<in> set (columns data)"
  then show "load_data_district version parse repr (Parsed data) = Inl (MissingColumn col_district)"
    by (simp add: load_data_district_def load_def)
next
  assume "col_district \<notin> set (columns data) \<and> col_name \<in> set (columns data) \<and>
    col_type \<in> set (columns data)"
  then show "load_data_radar version parse repr (Parsed data) = Inl (MissingColumn col_district)"
    by (simp add: load_data_radar_def load_def)
qed

theorem missing_column_reported_witness:
  "col_district \<in> set [col_unit_price, col_total_price, col_district] \<and>
   col_district \<notin> set (columns \<lparr>columns = [col_name, col_type, col_unit_price, col_total_price], rows = []\<rparr>) \<and>
   (\<exists>before col after.
      [col_unit_price, col_total_price, col_district] = before @ col # after \<and>
      set before \<subseteq> set (columns \<lparr>columns = [col_name, col_type, col_unit_price, col_total_price], rows = []\<rparr>) \<and>
      col \<notin> set (columns \<lparr>columns = [col_name, col_type, col_unit_price, col_total_price], rows = []\<rparr>) \<and>
      load Pandas2 (\<lambda>s. NaN) (\<lambda>x. []) [col_unit_price, col_total_price, col_district]
         [col_unit_price, col_total_price] [col_district]
         (Parsed \<lparr>columns = [col_name, col_type, col_unit_price, col_total_price], rows = []\<rparr>) =
        Inl (MissingColumn col)) \<and>
   load_data_district Pandas2 (\<lambda>s. NaN) (\<lambda>x. [])
     (Parsed \<lparr>columns = [col_name, col_type, col_unit_price, col_total_price], rows = []\<rparr>) =
     Inl (MissingColumn col_district) \<and>
   load_data_radar Pandas2 (\<lambda>s. NaN) (\<lambda>x. [])
     (Parsed \<lparr>columns = [col_name, col_type, col_unit_price, col_total_price], rows = []\<rparr>) =
     Inl (MissingColumn col_district)"
proof -
  let ?data = "\<lparr>columns = [col_name, col_type, col_unit_price, col_total_price], rows = []\<rparr>"
  have 1: "col_district \<in> set [col_unit_price, col_total_price, col_district]"
    by simp
  have 2: "col_district \<notin> set (columns ?data)" "col_unit_price \<in> set (columns ?data)"
    "col_total_price \<in> set (columns ?data)" "col_name \<in> set (columns ?data)"
    "col_type \<in> set (columns ?data)"
    by (simp_all add: col_defs)
  from missing_column_reported[of col_district "[col_unit_price, col_total_price, col_district]"
      ?data Pandas2 "\<lambda>s. NaN" "\<lambda>x. []" "[col_unit_price, col_total_price]" "[col_district]"] 1 2
  show ?thesis by blast
qed

text \<open>
  Claim C2 says that a missing categorical value never becomes the string \<open>nan\<close> and that
  its row is dropped. \<open>load_data\<close> converts the district column with \<open>astype(str)\<close>
  before it calls \<open>dropna\<close>. Under pandas 2 the missing district of this one-row table
  becomes \<open>nan\<close> and the row is kept, against the claim. Under pandas 3 the missing
  district stays missing and the row is dropped, as the claim says. In neither version
  is there an empty string: the claim's "treated as empty string" is not what the code
  does.
\<close>

theorem load_data_missing_district:
  "(\<exists>r. load_data_heatmap Pandas2 parse repr
       (Parsed \<lparr>columns = [col_unit_price, col_total_price, col_district, col_type],
                rows = [(\<lambda>col. CNum NaN)
                   (col_unit_price := CNum (Fin 50000), col_total_price := CNum (Fin 500),
                    col_type := CStr (ascii ''flat''))]\<rparr>) =
       Inr \<lparr>columns = [col_unit_price, col_total_price, col_district, col_type], rows = [r]\<rparr> \<and>
     r col_district = CStr (ascii ''nan'') \<and> r col_unit_price = CNum (Fin 50000) \<and>
     r col_total_price = CNum (Fin 500) \<and> r col_type = CStr (ascii ''flat'')) \<and>
   load_data_heatmap Pandas3 parse repr
       (Parsed \<lparr>columns = [col_unit_price, col_total_price, col_district, col_type],
                rows = [(\<lambda>col. CNum NaN)
                   (col_unit_price := CNum (Fin 50000), col_total_price := CNum (Fin 500),
                    col_type := CStr (ascii ''flat''))]\<rparr>) =
       Inr \<lparr>columns = [col_unit_price, col_total_price, col_district, col_type], rows = []\<rparr> \<and>
   (\<exists>r. load_data_district Pandas2 parse repr
       (Parsed \<lparr>columns = [col_unit_price, col_total_price, col_district],
                rows = [(\<lambda>col. CNum NaN)
                   (col_unit_price := CNum (Fin 50000), col_total_price := CNum (Fin 500))]\<rparr>) =
       Inr \<lparr>columns = [col_unit_price, col_total_price, col_district], rows = [r]\<rparr> \<and>
     r col_district = CStr (ascii ''nan'')) \<and>
   load_data_district Pandas3 parse repr
       (Parsed \<lparr>columns = [col_unit_price, col_total_price, col_district],
                rows = [(\<lambda>col. CNum NaN)
                   (col_unit_price := CNum (Fin 50000), col_total_price := CNum (Fin 500))]\<rparr>) =
       Inr \<lparr>columns = [col_unit_price, col_total_price, col_district], rows = []\<rparr>"
  by (simp add: load_data_heatmap_def load_data_district_def load_def clean_def dropna_def
      set_column_def to_numeric_def astype_str_def isna_def col_defs)

(*C7HERE*)

lemmas frame_eval = load_def clean_def dropna_def set_column_def to_numeric_def astype_str_def
  isna_def col_defs

lemmas group_eval = prepare_plot_data_def group_keys_def group_rows_def summarize_def
  List.map_filter_def key_of_def pd_mean_def pd_count_def present_def fsub_def fneg_def isna_def
  sort_values_def before_def ebind_def Let_def col_defs ascii_def

text \<open>
  Claim C8 says that each group gets the count of its rows. \<open>prepare_plot_data\<close> counts
  the name column, and \<open>count\<close> skips missing values. This table is what \<open>load_data\<close>
  returns (it is cleaned: \<open>load_data\<close> leaves it as it is); its group A has two rows, one
  of them without a name, and gets the count 1, with means over both rows.
\<close>

theorem prepare_plot_data_undercounts:
  "load_data_district version parse repr
     (Parsed \<lparr>columns = [col_name, col_district, col_unit_price, col_total_price],
        rows = [(\<lambda>c. CNum NaN)(col_unit_price := CNum (Fin 100),
                   col_total_price := CNum (Fin 500), col_district := CStr (ascii ''A'')),
                (\<lambda>c. CNum NaN)(col_name := CStr (ascii ''x''), col_unit_price := CNum (Fin 200),
                   col_total_price := CNum (Fin 700), col_district := CStr (ascii ''A''))]\<rparr>) =
     Inr \<lparr>columns = [col_name, col_district, col_unit_price, col_total_price],
        rows = [(\<lambda>c. CNum NaN)(col_unit_price := CNum (Fin 100),
                   col_total_price := CNum (Fin 500), col_district := CStr (ascii ''A'')),
                (\<lambda>c. CNum NaN)(col_name := CStr (ascii ''x''), col_unit_price := CNum (Fin 200),
                   col_total_price := CNum (Fin 700), col_district := CStr (ascii ''A''))]\<rparr> \<and>
   prepare_plot_data
     \<lparr>columns = [col_name, col_district, col_unit_price, col_total_price],
        rows = [(\<lambda>c. CNum NaN)(col_unit_price := CNum (Fin 100),
                   col_total_price := CNum (Fin 500), col_district := CStr (ascii ''A'')),
                (\<lambda>c. CNum NaN)(col_name := CStr (ascii ''x''), col_unit_price := CNum (Fin 200),
                   col_total_price := CNum (Fin 700), col_district := CStr (ascii ''A''))]\<rparr> =
     Inr [\<lparr>district = ascii ''A'', mean_unit_price = Fin 150, mean_total_price = Fin 600,
           listings = 1\<rparr>]"
proof (intro conjI)
  show "load_data_district version parse repr
     (Parsed \<lparr>columns = [col_name, col_district, col_unit_price, col_total_price],
        rows = [(\<lambda>c. CNum NaN)(col_unit_price := CNum (Fin 100),
                   col_total_price := CNum (Fin 500), col_district := CStr (ascii ''A'')),
                (\<lambda>c. CNum NaN)(col_name := CStr (ascii ''x''), col_unit_price := CNum (Fin 200),
                   col_total_price := CNum (Fin 700), col_district := CStr (ascii ''A''))]\<rparr>) =
     Inr \<lparr>columns = [col_name, col_district, col_unit_price, col_total_price],
        rows = [(\<lambda>c. CNum NaN)(col_unit_price := CNum (Fin 100),
                   col_total_price := CNum (Fin 500), col_district := CStr (ascii ''A'')),
                (\<lambda>c. CNum NaN)(col_name := CStr (ascii ''x''), col_unit_price := CNum (Fin 200),
                   col_total_price := CNum (Fin 700), col_district := CStr (ascii ''A''))]\<rparr>"
    by (simp add: load_data_district_def frame_eval fun_upd_idem_iff)
  show "prepare_plot_data
     \<lparr>columns = [col_name, col_district, col_unit_price, col_total_price],
        rows = [(\<lambda>c. CNum NaN)(col_unit_price := CNum (Fin 100),
                   col_total_price := CNum (Fin 500), col_district := CStr (ascii ''A'')),
                (\<lambda>c. CNum NaN)(col_name := CStr (ascii ''x''), col_unit_price := CNum (Fin 200),
                   col_total_price := CNum (Fin 700), col_district := CStr (ascii ''A''))]\<rparr> =
     Inr [\<lparr>district = ascii ''A'', mean_unit_price = Fin 150, mean_total_price = Fin 600,
           listings = 1\<rparr>]"
    by (simp add: group_eval fl_eval)
qed

lemma prepare_plot_data_example:
  "prepare_plot_data
     \<lparr>columns = [col_name, col_district, col_unit_price, col_total_price],
        rows = [(\<lambda>c. CNum NaN)(col_name := CStr (ascii ''p''), col_district := CStr (ascii ''A''),
                   col_unit_price := CNum (Fin 100), col_total_price := CNum (Fin 1)),
                (\<lambda>c. CNum NaN)(col_name := CStr (ascii ''q''), col_district := CStr (ascii ''A''),
                   col_unit_price := CNum (Fin 200), col_total_price := CNum (Fin 1)),
                (\<lambda>c. CNum NaN)(col_name := CStr (ascii ''r''), col_district := CStr (ascii ''B''),
                   col_unit_price := CNum (Fin 50), col_total_price := CNum (Fin 1))]\<rparr> =
     Inr [\<lparr>district = ascii ''A'', mean_unit_price = Fin 150, mean_total_price = Fin 1,
           listings = 2\<rparr>,
          \<lparr>district = ascii ''B'', mean_unit_price = Fin 50, mean_total_price = Fin 1,
           listings = 1\<rparr>]"
  by (simp add: group_eval fl_eval)


lemma set_map_filter: "set (List.map_filter f xs) = {y. \<exists>x \<in> set xs. f x = Some y}"
  by (induction xs) (auto simp: List.map_filter_def)

lemma pair_keys_set: "set (pair_keys data) = {k. \<exists>r \<in> set (rows data). pair_key r = Some k}"
  by (simp add: pair_keys_def set_map_filter)

lemma pair_keys_distinct: "distinct (pair_keys data)"
  by (simp add: pair_keys_def)

lemma pair_summarize_fields:
  assumes "pair_summarize data k = Inr s"
  shows "pair_district s = fst k" "pair_type s = snd k"
    "pd_mean (map (\<lambda>r. r col_unit_price) (pair_rows data k)) = Inr (pair_mean_unit_price s)"
    "pd_mean (map (\<lambda>r. r col_total_price) (pair_rows data k)) = Inr (pair_mean_total_price s)"
  using assms by (auto simp: pair_summarize_def Let_def dest!: ebind_Inr)

lemma pair_summaries_keys:
  "pair_summaries data ks = Inr g \<Longrightarrow>
     map (\<lambda>s. (pair_district s, pair_type s)) g = ks \<and>
     (\<forall>s \<in> set g. pair_summarize data (pair_district s, pair_type s) = Inr s)"
proof (induction ks arbitrary: g)
  case Nil
  then show ?case by simp
next
  case (Cons k ks)
  from Cons.prems obtain s ss where s: "pair_summarize data k = Inr s"
    and ss: "pair_summaries data ks = Inr ss" and g: "g = s # ss"
    by (auto dest!: ebind_Inr)
  from pair_summarize_fields(1,2)[OF s] have "(pair_district s, pair_type s) = k"
    by simp
  with Cons.IH[OF ss] s g show ?case by simp
qed

lemma pd_mean_error: "pd_mean cells = Inl e \<Longrightarrow> e = TypeErr"
proof -
  have "numbers cs = Inl e \<Longrightarrow> e = TypeErr" for cs
  proof (induction cs)
    case Nil
    then show ?case by simp
  next
    case (Cons c cs)
    then show ?case
      by (cases c; cases "numbers cs") (simp_all add: ebind_def)
  qed
  then show "pd_mean cells = Inl e \<Longrightarrow> e = TypeErr"
    by (cases "numbers cells") (auto simp: pd_mean_def ebind_def split: if_splits)
qed

lemma pair_summaries_error: "pair_summaries data ks = Inl e \<Longrightarrow> e = TypeErr"
proof (induction ks)
  case Nil
  then show ?case by simp
next
  case (Cons k ks)
  have "pair_summarize data k = Inl e \<Longrightarrow> e = TypeErr"
    by (auto simp: pair_summarize_def Let_def ebind_def split: sum.splits dest: pd_mean_error)
  with Cons show ?case
    by (cases "pair_summarize data k"; cases "pair_summaries data ks") (simp_all add: ebind_def)
qed

lemma find_pair:
  assumes "distinct (map (\<lambda>g. (pair_district g, pair_type g)) grouped)"
    and "s \<in> set grouped"
  shows "find (\<lambda>g. pair_district g = pair_district s \<and> pair_type g = pair_type s) grouped = Some s"
  using assms
proof (induction grouped)
  case Nil
  then show ?case by simp
next
  case (Cons g gs)
  show ?case
  proof (cases "s = g")
    case True
    then show ?thesis by simp
  next
    case False
    with Cons.prems have s: "s \<in> set gs" by simp
    then have "(pair_district s, pair_type s) \<in> set (map (\<lambda>g. (pair_district g, pair_type g)) gs)"
      by force
    with Cons.prems(1) have "(pair_district g, pair_type g) \<noteq> (pair_district s, pair_type s)"
      by auto
    with Cons s show ?thesis by auto
  qed
qed

lemma compute_average_prices_grouped:
  assumes "compute_average_prices data = Inr (pu, pt)"
  obtains grouped where "pair_summaries data (pair_keys data) = Inr grouped"
    "pivot pair_mean_unit_price grouped = Inr pu" "pivot pair_mean_total_price grouped = Inr pt"
  using assms
  by (auto simp: compute_average_prices_def split: if_splits dest!: ebind_Inr)

lemma check_columns_none: "check_columns required_columns cols = None \<Longrightarrow> set required_columns \<subseteq> set cols"
  by (induction required_columns) (auto split: if_splits)

lemma numbers_ok: "list_all (\<lambda>c. \<forall>s. c \<noteq> CStr s) cs \<Longrightarrow> \<exists>xs. numbers cs = Inr xs"
  by (induction cs rule: numbers.induct) (auto simp: ebind_def)

lemma pd_mean_ok: "list_all (\<lambda>c. \<forall>s. c \<noteq> CStr s) cs \<Longrightarrow> \<exists>m. pd_mean cs = Inr m"
  using numbers_ok[of cs] by (auto simp: pd_mean_def ebind_def)

lemma heatmap_clean_numeric:
  assumes "load_data_heatmap version parse repr file = Inr data"
  shows "list_all (\<lambda>col. col \<in> set (columns data))
           [col_district, col_type, col_unit_price, col_total_price]"
    and "list_all (\<lambda>r. (\<forall>s. r col_unit_price \<noteq> CStr s) \<and> (\<forall>s. r col_total_price \<noteq> CStr s))
           (rows data)"
proof -
  from assms obtain d0 where parsed: "file = Parsed d0"
    and chk: "check_columns [col_unit_price, col_total_price, col_district, col_type] (columns d0) = None"
    and data: "data = clean version parse repr [col_unit_price, col_total_price] [col_district, col_type]
        [col_unit_price, col_total_price, col_district, col_type] d0"
    by (auto simp: load_data_heatmap_def load_def split: csv.splits option.splits)
  have cols: "columns data = columns d0"
    by (simp add: data clean_def dropna_def set_column_def)
  from check_columns_none[OF chk] cols
  show "list_all (\<lambda>col. col \<in> set (columns data))
           [col_district, col_type, col_unit_price, col_total_price]"
    by simp
  have num: "to_numeric parse c \<noteq> CStr s" for c s
    by (cases c) (simp_all add: to_numeric_def)
  show "list_all (\<lambda>r. (\<forall>s. r col_unit_price \<noteq> CStr s) \<and> (\<forall>s. r col_total_price \<noteq> CStr s))
           (rows data)"
    unfolding list_all_iff
  proof
    fix r assume "r \<in> set (rows data)"
    then obtain r0 where "r = r0(col_unit_price := to_numeric parse (r0 col_unit_price),
        col_total_price := to_numeric parse (r0 col_total_price),
        col_district := astype_str version repr (r0 col_district),
        col_type := astype_str version repr (r0 col_type))"
      by (auto simp: data clean_def dropna_def set_column_def col_defs)
    then show "(\<forall>s. r col_unit_price \<noteq> CStr s) \<and> (\<forall>s. r col_total_price \<noteq> CStr s)"
      using num by (simp add: col_defs)
  qed
qed

lemma pair_summaries_ok:
  assumes "list_all (\<lambda>r. (\<forall>s. r col_unit_price \<noteq> CStr s) \<and> (\<forall>s. r col_total_price \<noteq> CStr s))
           (rows data)"
  shows "\<exists>g. pair_summaries data ks = Inr g"
proof (induction ks)
  case Nil
  then show ?case by simp
next
  case (Cons k ks)
  have "list_all (\<lambda>c. \<forall>s. c \<noteq> CStr s) (map (\<lambda>r. r col_unit_price) (pair_rows data k))"
    "list_all (\<lambda>c. \<forall>s. c \<noteq> CStr s) (map (\<lambda>r. r col_total_price) (pair_rows data k))"
    using assms by (auto simp: list_all_iff pair_rows_def)
  from pd_mean_ok[OF this(1)] pd_mean_ok[OF this(2)]
  have "\<exists>s. pair_summarize data k = Inr s"
    by (auto simp: pair_summarize_def Let_def ebind_def)
  with Cons show ?case by (auto simp: ebind_def)
qed

lemma heatmap_never_fails:
  assumes "load_data_heatmap version parse repr file = Inr data"
  shows "\<exists>pu pt. compute_average_prices data = Inr (pu, pt)"
proof -
  note h = heatmap_clean_numeric[OF assms]
  from pair_summaries_ok[OF h(2)] obtain g where g: "pair_summaries data (pair_keys data) = Inr g"
    by blast
  from pair_summaries_keys[OF g] pair_keys_distinct[of data]
  have "distinct (map (\<lambda>g. (pair_district g, pair_type g)) g)"
    by simp
  with g h(1) show ?thesis
    by (simp add: compute_average_prices_def ebind_def pivot_def)
qed

lemmas pivot_eval = compute_average_prices_def pair_keys_def pair_rows_def pair_key_def
  pair_summarize_def pivot_def List.map_filter_def key_of_def pd_mean_def present_def
  fsub_def fneg_def ebind_def Let_def col_defs ascii_def

lemma heatmap_example:
  "\<exists>pu pt. compute_average_prices
     \<lparr>columns = [col_district, col_type, col_unit_price, col_total_price],
      rows = [(\<lambda>c. CNum NaN)(col_district := CStr (ascii ''A''), col_type := CStr (ascii ''X''),
                 col_unit_price := CNum (Fin 100), col_total_price := CNum (Fin 1)),
              (\<lambda>c. CNum NaN)(col_district := CStr (ascii ''B''), col_type := CStr (ascii ''X''),
                 col_unit_price := CNum (Fin 200), col_total_price := CNum (Fin 2)),
              (\<lambda>c. CNum NaN)(col_district := CStr (ascii ''B''), col_type := CStr (ascii ''Y''),
                 col_unit_price := CNum (Fin 300), col_total_price := CNum (Fin 3))]\<rparr> =
     Inr (pu, pt)"
  by (simp add: pivot_eval fl_eval)

text \<open>
  Claim C9. In both pivot tables of \<open>compute_average_prices\<close> the rows are labelled by the
  districts and the columns by the types that occur in the data. The cell of a district
  and a type that no row of the data has together is NaN, the missing marker, and not
  0; the cell of a pair that occurs is the mean over the rows with that pair. \<open>pivot\<close>
  never raises on the grouped table, and for a table that \<open>load_data\<close> returned the
  computation returns the two pivot tables.
\<close>

theorem pivot_missing_cells:
  "compute_average_prices data \<noteq> Inl ValueErr \<and>
   (load_data_heatmap version parse repr source = Inr data \<longrightarrow>
      (\<exists>pivot_unit_price pivot_total_price.
          compute_average_prices data = Inr (pivot_unit_price, pivot_total_price))) \<and>
   (compute_average_prices data = Inr (pu, pt) \<longrightarrow>
      set (index pu) = {d. \<exists>t. \<exists>r \<in> set (rows data). pair_key r = Some (d, t)} \<and>
      set (pivot_columns pu) = {t. \<exists>d. \<exists>r \<in> set (rows data). pair_key r = Some (d, t)} \<and>
      index pt = index pu \<and> pivot_columns pt = pivot_columns pu \<and>
      ((\<forall>r \<in> set (rows data). pair_key r \<noteq> Some (d, t)) \<longrightarrow>
         cell_at pu d t = NaN \<and> cell_at pt d t = NaN) \<and>
      ((\<exists>r \<in> set (rows data). pair_key r = Some (d, t)) \<longrightarrow>
         pd_mean (map (\<lambda>r. r col_unit_price) (pair_rows data (d, t))) = Inr (cell_at pu d t) \<and>
         pd_mean (map (\<lambda>r. r col_total_price) (pair_rows data (d, t))) = Inr (cell_at pt d t)))"
proof (intro conjI impI)
  show "compute_average_prices data \<noteq> Inl ValueErr"
  proof (cases "pair_summaries data (pair_keys data)")
    case (Inl e)
    then have "e = TypeErr" by (rule pair_summaries_error)
    with Inl show ?thesis
      by (simp add: compute_average_prices_def ebind_def)
  next
    case (Inr grouped)
    from pair_summaries_keys[OF Inr] pair_keys_distinct[of data]
    have "distinct (map (\<lambda>g. (pair_district g, pair_type g)) grouped)"
      by simp
    with Inr show ?thesis
      by (simp add: compute_average_prices_def ebind_def pivot_def)
  qed
next
  assume "load_data_heatmap version parse repr source = Inr data"
  then show "\<exists>pivot_unit_price pivot_total_price.
          compute_average_prices data = Inr (pivot_unit_price, pivot_total_price)"
    by (rule heatmap_never_fails)
next
  assume res: "compute_average_prices data = Inr (pu, pt)"
  then obtain grouped where g: "pair_summaries data (pair_keys data) = Inr grouped"
    and pu: "pivot pair_mean_unit_price grouped = Inr pu"
    and pt: "pivot pair_mean_total_price grouped = Inr pt"
    by (rule compute_average_prices_grouped)
  from pair_summaries_keys[OF g] have
    keys: "map (\<lambda>s. (pair_district s, pair_type s)) grouped = pair_keys data" and
    each: "\<And>s. s \<in> set grouped \<Longrightarrow> pair_summarize data (pair_district s, pair_type s) = Inr s"
    by simp_all
  from keys pair_keys_distinct[of data]
  have dist: "distinct (map (\<lambda>g. (pair_district g, pair_type g)) grouped)"
    by simp
  from pu pt dist have
    pu_eq: "pu = \<lparr>index = sort (remdups (map pair_district grouped)),
                pivot_columns = sort (remdups (map pair_type grouped)),
                cell_at = (\<lambda>d t. case find (\<lambda>g. pair_district g = d \<and> pair_type g = t) grouped of
                               None \<Rightarrow> NaN | Some g \<Rightarrow> pair_mean_unit_price g)\<rparr>" and
    pt_eq: "pt = \<lparr>index = sort (remdups (map pair_district grouped)),
                pivot_columns = sort (remdups (map pair_type grouped)),
                cell_at = (\<lambda>d t. case find (\<lambda>g. pair_district g = d \<and> pair_type g = t) grouped of
                               None \<Rightarrow> NaN | Some g \<Rightarrow> pair_mean_total_price g)\<rparr>"
    by (simp_all add: pivot_def)
  have kset: "(\<lambda>s. (pair_district s, pair_type s)) ` set grouped =
      {k. \<exists>r \<in> set (rows data). pair_key r = Some k}"
    using keys pair_keys_set[of data] by (metis set_map)
  have "set (index pu) = pair_district ` set grouped"
    by (simp add: pu_eq)
  also have "\<dots> = fst ` ((\<lambda>s. (pair_district s, pair_type s)) ` set grouped)"
    by force
  also have "\<dots> = {d. \<exists>t. \<exists>r \<in> set (rows data). pair_key r = Some (d, t)}"
    unfolding kset by force
  finally show "set (index pu) = {d. \<exists>t. \<exists>r \<in> set (rows data). pair_key r = Some (d, t)}" .
  have "set (pivot_columns pu) = pair_type ` set grouped"
    by (simp add: pu_eq)
  also have "\<dots> = snd ` ((\<lambda>s. (pair_district s, pair_type s)) ` set grouped)"
    by force
  also have "\<dots> = {t. \<exists>d. \<exists>r \<in> set (rows data). pair_key r = Some (d, t)}"
    unfolding kset by force
  finally show "set (pivot_columns pu) = {t. \<exists>d. \<exists>r \<in> set (rows data). pair_key r = Some (d, t)}" .
  show "index pt = index pu" "pivot_columns pt = pivot_columns pu"
    by (simp_all add: pu_eq pt_eq)
  {
    assume none: "\<forall>r \<in> set (rows data). pair_key r \<noteq> Some (d, t)"
    have "find (\<lambda>g. pair_district g = d \<and> pair_type g = t) grouped = None"
    proof (rule ccontr)
      assume "find (\<lambda>g. pair_district g = d \<and> pair_type g = t) grouped \<noteq> None"
      then obtain s where "s \<in> set grouped" "pair_district s = d" "pair_type s = t"
        by (auto simp: find_None_iff)
      then have "(d, t) \<in> (\<lambda>s. (pair_district s, pair_type s)) ` set grouped"
        by force
      with kset none show False by auto
    qed
    then show "cell_at pu d t = NaN" "cell_at pt d t = NaN"
      by (simp_all add: pu_eq pt_eq)
  }
  {
    assume "\<exists>r \<in> set (rows data). pair_key r = Some (d, t)"
    with kset have "(d, t) \<in> (\<lambda>s. (pair_district s, pair_type s)) ` set grouped"
      by auto
    then obtain s where s: "s \<in> set grouped" "pair_district s = d" "pair_type s = t"
      by auto
    from find_pair[OF dist s(1)] s
    have f: "find (\<lambda>g. pair_district g = d \<and> pair_type g = t) grouped = Some s"
      by simp
    from each[OF s(1)] s have "pair_summarize data (d, t) = Inr s"
      by simp
    from pair_summarize_fields(3,4)[OF this] f
    show "pd_mean (map (\<lambda>r. r col_unit_price) (pair_rows data (d, t))) = Inr (cell_at pu d t)"
      "pd_mean (map (\<lambda>r. r col_total_price) (pair_rows data (d, t))) = Inr (cell_at pt d t)"
      by (simp_all add: pu_eq pt_eq)
  }
qed

theorem pivot_missing_cells_witness:
  "load_data_heatmap Pandas2 (\<lambda>s. NaN) (\<lambda>x. [])
     (Parsed \<lparr>columns = [col_district, col_type, col_unit_price, col_total_price],
      rows = [(\<lambda>c. CNum NaN)(col_unit_price := CNum (Fin 100), col_total_price := CNum (Fin 1),
                 col_district := CStr (ascii ''A''), col_type := CStr (ascii ''X'')),
              (\<lambda>c. CNum NaN)(col_unit_price := CNum (Fin 200), col_total_price := CNum (Fin 2),
                 col_district := CStr (ascii ''B''), col_type := CStr (ascii ''X'')),
              (\<lambda>c. CNum NaN)(col_unit_price := CNum (Fin 300), col_total_price := CNum (Fin 3),
                 col_district := CStr (ascii ''B''), col_type := CStr (ascii ''Y''))]\<rparr>) =
     Inr \<lparr>columns = [col_district, col_type, col_unit_price, col_total_price],
      rows = [(\<lambda>c. CNum NaN)(col_unit_price := CNum (Fin 100), col_total_price := CNum (Fin 1),
                 col_district := CStr (ascii ''A''), col_type := CStr (ascii ''X'')),
              (\<lambda>c. CNum NaN)(col_unit_price := CNum (Fin 200), col_total_price := CNum (Fin 2),
                 col_district := CStr (ascii ''B''), col_type := CStr (ascii ''X'')),
              (\<lambda>c. CNum NaN)(col_unit_price := CNum (Fin 300), col_total_price := CNum (Fin 3),
                 col_district := CStr (ascii ''B''), col_type := CStr (ascii ''Y''))]\<rparr> \<and>
   (\<exists>pu pt. compute_average_prices
     \<lparr>columns = [col_district, col_type, col_unit_price, col_total_price],
      rows = [(\<lambda>c. CNum NaN)(col_unit_price := CNum (Fin 100), col_total_price := CNum (Fin 1),
                 col_district := CStr (ascii ''A''), col_type := CStr (ascii ''X'')),
              (\<lambda>c. CNum NaN)(col_unit_price := CNum (Fin 200), col_total_price := CNum (Fin 2),
                 col_district := CStr (ascii ''B''), col_type := CStr (ascii ''X'')),
              (\<lambda>c. CNum NaN)(col_unit_price := CNum (Fin 300), col_total_price := CNum (Fin 3),
                 col_district := CStr (ascii ''B''), col_type := CStr (ascii ''Y''))]\<rparr> =
       Inr (pu, pt) \<and>
     cell_at pu (ascii ''A'') (ascii ''Y'') = NaN \<and> cell_at pt (ascii ''A'') (ascii ''Y'') = NaN \<and>
     cell_at pu (ascii ''A'') (ascii ''Y'') \<noteq> Fin 0 \<and>
     cell_at pu (ascii ''A'') (ascii ''X'') = Fin 100 \<and> cell_at pt (ascii ''A'') (ascii ''X'') = Fin 1)"
proof -
  let ?ex = "\<lparr>columns = [col_district, col_type, col_unit_price, col_total_price],
      rows = [(\<lambda>c. CNum NaN)(col_unit_price := CNum (Fin 100), col_total_price := CNum (Fin 1),
                 col_district := CStr (ascii ''A''), col_type := CStr (ascii ''X'')),
              (\<lambda>c. CNum NaN)(col_unit_price := CNum (Fin 200), col_total_price := CNum (Fin 2),
                 col_district := CStr (ascii ''B''), col_type := CStr (ascii ''X'')),
              (\<lambda>c. CNum NaN)(col_unit_price := CNum (Fin 300), col_total_price := CNum (Fin 3),
                 col_district := CStr (ascii ''B''), col_type := CStr (ascii ''Y''))]\<rparr>"
  have l: "load_data_heatmap Pandas2 (\<lambda>s. NaN) (\<lambda>x. []) (Parsed ?ex) = Inr ?ex"
    by (simp add: load_data_heatmap_def frame_eval)
  from pivot_missing_cells[where data = ?ex and parse = "\<lambda>s. NaN" and repr = "\<lambda>x. []"
      and source = "Parsed ?ex"] l
  obtain pu pt where h: "compute_average_prices ?ex = Inr (pu, pt)"
    by blast
  have b: "\<forall>r \<in> set (rows ?ex). pair_key r \<noteq> Some (ascii ''A'', ascii ''Y'')"
    by (simp add: pair_key_def key_of_def col_defs ascii_def)
  have c: "\<exists>r \<in> set (rows ?ex). pair_key r = Some (ascii ''A'', ascii ''X'')"
    by (simp add: pair_key_def key_of_def col_defs ascii_def)
  have m: "pd_mean (map (\<lambda>r. r col_unit_price) (pair_rows ?ex (ascii ''A'', ascii ''X''))) =
      Inr (Fin 100)"
    "pd_mean (map (\<lambda>r. r col_total_price) (pair_rows ?ex (ascii ''A'', ascii ''X''))) =
      Inr (Fin 1)"
    by (simp_all add: pivot_eval fl_eval)
  from pivot_missing_cells[where data = ?ex and pu = pu and pt = pt and d = "ascii ''A''"
      and t = "ascii ''Y''"] h b
  have n: "cell_at pu (ascii ''A'') (ascii ''Y'') = NaN" "cell_at pt (ascii ''A'') (ascii ''Y'') = NaN"
    by blast+
  from pivot_missing_cells[where data = ?ex and pu = pu and pt = pt and d = "ascii ''A''"
      and t = "ascii ''X''"] h c
  have "pd_mean (map (\<lambda>r. r col_unit_price) (pair_rows ?ex (ascii ''A'', ascii ''X''))) =
      Inr (cell_at pu (ascii ''A'') (ascii ''X''))"
    "pd_mean (map (\<lambda>r. r col_total_price) (pair_rows ?ex (ascii ''A'', ascii ''X''))) =
      Inr (cell_at pt (ascii ''A'') (ascii ''X''))"
    by blast+
  with m have v: "cell_at pu (ascii ''A'') (ascii ''X'') = Fin 100"
    "cell_at pt (ascii ''A'') (ascii ''X'') = Fin 1"
    by simp_all
  from n have "cell_at pu (ascii ''A'') (ascii ''Y'') \<noteq> Fin 0"
    by simp
  with l h n v show ?thesis by blast
qed

section \<open>What else holds of the code\<close>

lemma astype_str_isna: "isna (astype_str version repr c) = (version = Pandas3 \<and> isna c)"
  by (cases c; cases version) (simp_all add: astype_str_def isna_def)

lemma heatmap_rows:
  "load_data_heatmap version parse repr (Parsed d0) = Inr data \<Longrightarrow>
     rows data =
       map (\<lambda>r. r(col_unit_price := to_numeric parse (r col_unit_price),
                  col_total_price := to_numeric parse (r col_total_price),
                  col_district := astype_str version repr (r col_district),
                  col_type := astype_str version repr (r col_type)))
         (filter (\<lambda>r. \<not> isna (to_numeric parse (r col_unit_price)) \<and>
                      \<not> isna (to_numeric parse (r col_total_price)) \<and>
                      (version = Pandas3 \<longrightarrow> \<not> isna (r col_district)) \<and>
                      (version = Pandas3 \<longrightarrow> \<not> isna (r col_type))) (rows d0))"
  by (auto simp: load_data_heatmap_def load_def clean_def dropna_def set_column_def
      filter_map comp_def astype_str_isna col_defs split: option.splits)

lemma summarize_fields:
  assumes "summarize data k = Inr s"
  shows "district s = k"
    "pd_mean (map (\<lambda>r. r col_unit_price) (group_rows data col_district k)) = Inr (mean_unit_price s)"
    "pd_mean (map (\<lambda>r. r col_total_price) (group_rows data col_district k)) = Inr (mean_total_price s)"
    "listings s = pd_count (map (\<lambda>r. r col_name) (group_rows data col_district k))"
  using assms by (auto simp: summarize_def Let_def dest!: ebind_Inr)

lemma summaries_each:
  "summaries data ks = Inr g \<Longrightarrow>
     map district g = ks \<and> (\<forall>s \<in> set g. summarize data (district s) = Inr s)"
proof (induction ks arbitrary: g)
  case Nil
  then show ?case by simp
next
  case (Cons k ks)
  from Cons.prems obtain s ss where s: "summarize data k = Inr s"
    and ss: "summaries data ks = Inr ss" and g: "g = s # ss"
    by (auto dest!: ebind_Inr)
  with Cons.IH[OF ss] summarize_fields(1)[OF s] show ?case by simp
qed

lemma set_insert_desc: "set (insert_desc x ys) = insert x (set ys)"
  by (induction ys) auto

lemma set_sort_values: "set (sort_values g) = set g"
  by (induction g) (simp_all add: sort_values_def set_insert_desc)

lemma pd_count_present:
  "list_all (\<lambda>c. \<not> isna c) cells \<Longrightarrow> pd_count cells = length cells"
  by (induction cells) (simp_all add: pd_count_def)

lemma prepare_plot_data_groups:
  assumes "prepare_plot_data data = Inr grouped"
  shows "district ` set grouped = {k. \<exists>r \<in> set (rows data). key_of (r col_district) = Some k}"
    and "s \<in> set grouped \<Longrightarrow>
      pd_mean (map (\<lambda>r. r col_unit_price) (group_rows data col_district (district s))) =
        Inr (mean_unit_price s) \<and>
      pd_mean (map (\<lambda>r. r col_total_price) (group_rows data col_district (district s))) =
        Inr (mean_total_price s) \<and>
      listings s = pd_count (map (\<lambda>r. r col_name) (group_rows data col_district (district s)))"
    and "s \<in> set grouped \<Longrightarrow> list_all (\<lambda>r. \<not> isna (r col_name)) (rows data) \<Longrightarrow>
      listings s = length (group_rows data col_district (district s))"
proof -
  from assms obtain g where g: "summaries data (group_keys data col_district) = Inr g"
    and grouped: "grouped = sort_values g"
    by (auto simp: prepare_plot_data_def split: if_splits dest!: ebind_Inr)
  from summaries_each[OF g] have keys: "map district g = group_keys data col_district"
    and each: "\<And>s. s \<in> set g \<Longrightarrow> summarize data (district s) = Inr s"
    by simp_all
  have "district ` set grouped = set (map district g)"
    by (simp add: grouped set_sort_values)
  also have "\<dots> = {k. \<exists>r \<in> set (rows data). key_of (r col_district) = Some k}"
    by (simp add: keys group_keys_def set_map_filter)
  finally show "district ` set grouped =
      {k. \<exists>r \<in> set (rows data). key_of (r col_district) = Some k}" .
  {
    assume "s \<in> set grouped"
    then have "summarize data (district s) = Inr s"
      by (simp add: grouped set_sort_values each)
    note f = summarize_fields[OF this]
    from f show "pd_mean (map (\<lambda>r. r col_unit_price) (group_rows data col_district (district s))) =
        Inr (mean_unit_price s) \<and>
      pd_mean (map (\<lambda>r. r col_total_price) (group_rows data col_district (district s))) =
        Inr (mean_total_price s) \<and>
      listings s = pd_count (map (\<lambda>r. r col_name) (group_rows data col_district (district s)))"
      by simp
    assume "list_all (\<lambda>r. \<not> isna (r col_name)) (rows data)"
    then have "list_all (\<lambda>c. \<not> isna c)
        (map (\<lambda>r. r col_name) (group_rows data col_district (district s)))"
      by (simp add: list_all_iff group_rows_def)
    from pd_count_present[OF this] f(4)
    show "listings s = length (group_rows data col_district (district s))"
      by simp
  }
qed


end
